theory Spec2Isabelle
  imports Main "HOL-Library.Word"
begin


section \<open>GrGLSemaphore: the wrapper around a GL sync object\<close>

text \<open>
  \<^verbatim>\<open>src/gpu/gl/GrGLSemaphore.cpp\<close>. The semaphore holds a sync handle \<open>fSync\<close>
  (zero when there is none) and the flag \<open>fIsOwned\<close> given to the constructor. The GL
  device is seen through the calls of \<open>deleteSync\<close> it receives, kept in order. The base
  class calls \<open>INHERITED::onRelease()\<close> and \<open>INHERITED::onAbandon()\<close> touch neither
  field and are not part of the model. The constructor leaves the handle at zero and
  stores its argument in \<open>fIsOwned\<close>; a handle is put into \<open>fSync\<close> later, by an
  assignment to the field.
\<close>

record GrGLSemaphore =
  fSync :: nat
  fIsOwned :: bool

record GrGLGpu =
  deleteSyncCalls :: "nat list"

definition GrGLSemaphore_new :: "bool \<Rightarrow> GrGLSemaphore" where
  "GrGLSemaphore_new isOwned = \<lparr>fSync = 0, fIsOwned = isOwned\<rparr>"

definition deleteSync :: "nat \<Rightarrow> GrGLGpu \<Rightarrow> GrGLGpu" where
  "deleteSync sync gpu = gpu\<lparr>deleteSyncCalls := deleteSyncCalls gpu @ [sync]\<rparr>"

definition onRelease :: "GrGLSemaphore \<Rightarrow> GrGLGpu \<Rightarrow> GrGLSemaphore \<times> GrGLGpu" where
  "onRelease s gpu =
     (let gpu' = (if fSync s \<noteq> 0 \<and> fIsOwned s then deleteSync (fSync s) gpu else gpu)
      in (s\<lparr>fSync := 0\<rparr>, gpu'))"

definition onAbandon :: "GrGLSemaphore \<Rightarrow> GrGLGpu \<Rightarrow> GrGLSemaphore \<times> GrGLGpu" where
  "onAbandon s gpu = (s\<lparr>fSync := 0\<rparr>, gpu)"

section \<open>SkLocalMatrixImageFilter: the factory\<close>

text \<open>
  \<^verbatim>\<open>src/core/SkLocalMatrixImageFilter.cpp\<close>. The class \<open>SkMatrix\<close> is not among the
  sources: a matrix is taken as what \<open>Make\<close> asks of it, the set of type-mask flags
  \<open>getType()\<close> reports and the answer of \<open>isIdentity()\<close>. A smart pointer that may be
  null is an \<open>option\<close>.
\<close>

datatype TypeMask = kTranslate_Mask | kScale_Mask | kAffine_Mask | kPerspective_Mask

record SkMatrix =
  getType :: "TypeMask set"
  isIdentity :: bool

datatype SkImageFilter =
    OtherImageFilter nat
  | SkLocalMatrixImageFilter SkMatrix SkImageFilter

definition Make :: "SkMatrix \<Rightarrow> SkImageFilter option \<Rightarrow> SkImageFilter option" where
  "Make localM input =
     (case input of
        None \<Rightarrow> None
      | Some f \<Rightarrow>
          if getType localM \<inter> {kAffine_Mask, kPerspective_Mask} \<noteq> {} then None
          else if isIdentity localM then input
          else Some (SkLocalMatrixImageFilter localM f))"

section \<open>DDLPromiseImageHelper: the image catalogue\<close>

subsection \<open>What the file takes from the rest of the library\<close>

datatype SkColorType =
    kUnknown_SkColorType | kAlpha_8_SkColorType | kRGB_565_SkColorType
  | kARGB_4444_SkColorType | kRGBA_8888_SkColorType | kRGB_888x_SkColorType
  | kBGRA_8888_SkColorType | kRGBA_1010102_SkColorType | kRGB_101010x_SkColorType
  | kGray_8_SkColorType | kRGBA_F16_SkColorType | kRGBA_F32_SkColorType

datatype SkAlphaType =
    kUnknown_SkAlphaType | kOpaque_SkAlphaType | kPremul_SkAlphaType | kUnpremul_SkAlphaType

datatype SkYUVColorSpace = kJPEG_SkYUVColorSpace | kRec601_SkYUVColorSpace | kRec709_SkYUVColorSpace

datatype GrSurfaceOrigin = kTopLeft_GrSurfaceOrigin | kBottomLeft_GrSurfaceOrigin

datatype GrMipMapped = kNo | kYes

type_synonym pixels = "8 word list"

text \<open>A C array of four elements (\<open>SkYUVASizeInfo::kMaxCount\<close> and
  \<open>SkYUVAIndex::kIndexCount\<close> are both four: the file initialises such arrays with four
  values). The callers check the range of an index before they read or write.\<close>

datatype 'a quad = Quad 'a 'a 'a 'a

fun qget :: "'a quad \<Rightarrow> nat \<Rightarrow> 'a" where
  "qget (Quad a b c d) i = (if i = 0 then a else if i = 1 then b else if i = 2 then c else d)"

fun qset :: "'a quad \<Rightarrow> nat \<Rightarrow> 'a \<Rightarrow> 'a quad" where
  "qset (Quad a b c d) i v =
     (if i = 0 then Quad v b c d else if i = 1 then Quad a v c d
      else if i = 2 then Quad a b v d else Quad a b c v)"

definition kMaxCount :: nat where "kMaxCount = 4"

definition kIndexCount :: nat where "kIndexCount = 4"

definition kA_Index :: nat where "kA_Index = 3"

record SkImageInfo =
  iiWidth :: int
  iiHeight :: int
  iiColorType :: SkColorType
  iiAlphaType :: SkAlphaType
  iiColorSpace :: "nat option"

definition SkImageInfo_Make ::
  "int \<Rightarrow> int \<Rightarrow> SkColorType \<Rightarrow> SkAlphaType \<Rightarrow> nat option \<Rightarrow> SkImageInfo" where
  "SkImageInfo_Make w h ct at cs =
     \<lparr>iiWidth = w, iiHeight = h, iiColorType = ct, iiAlphaType = at, iiColorSpace = cs\<rparr>"

definition emptyImageInfo :: SkImageInfo where
  "emptyImageInfo = SkImageInfo_Make 0 0 kUnknown_SkColorType kUnknown_SkAlphaType None"

record SkBitmap =
  bmInfo :: SkImageInfo
  bmPixels :: "pixels option"
  bmRowBytes :: nat
  bmImmutable :: bool

definition emptyBitmap :: SkBitmap where
  "emptyBitmap = \<lparr>bmInfo = emptyImageInfo, bmPixels = None, bmRowBytes = 0, bmImmutable = False\<rparr>"

record SkPixmap =
  pmInfo :: SkImageInfo
  pmAddr :: "pixels option"
  pmRowBytes :: nat

definition emptyPixmap :: SkPixmap where
  "emptyPixmap = \<lparr>pmInfo = emptyImageInfo, pmAddr = None, pmRowBytes = 0\<rparr>"

record SkYUVAIndex =
  fIndex :: int
  fChannel :: nat

record SkYUVASizeInfo =
  fSizes :: "(int \<times> int) quad"
  fWidthBytes :: "nat quad"

definition isEmpty :: "int \<times> int \<Rightarrow> bool" where
  "isEmpty sz = (fst sz \<le> 0 \<or> snd sz \<le> 0)"

text \<open>What \<open>getPlanes\<close> hands back when the image has YUV planes: the cached data (by a
  number), the sizes, the index mapping, the colour space and the four plane pointers.\<close>

record YUVPlanes =
  ypData :: nat
  ypSizeInfo :: SkYUVASizeInfo
  ypIndices :: "SkYUVAIndex quad"
  ypColorSpace :: SkYUVColorSpace
  ypPlanes :: "pixels option quad"

text \<open>What \<open>makeRasterImage()\<close> followed by \<open>readPixels\<close> gives: no raster image at all
  (a null pointer), a raster image whose pixels cannot be read, or the pixels.\<close>

datatype RasterResult = NullRasterImage | ReadPixelsFails | ReadPixels pixels

text \<open>An image handed to the catalogue, as the answers of the methods \<open>addImage\<close> and
  \<open>findImage\<close> call on it.\<close>

record SkImage =
  uniqueID :: "32 word"
  width :: int
  height :: int
  colorType :: SkColorType
  alphaType :: SkAlphaType
  refColorSpace :: "nat option"
  getPlanes :: "YUVPlanes option"
  makeRasterImage :: RasterResult

datatype GrBackendTexture = InvalidTexture | Texture nat int int SkColorType

fun isValid :: "GrBackendTexture \<Rightarrow> bool" where
  "isValid InvalidTexture = False"
| "isValid (Texture h w ht ct) = True"

datatype GrBackendFormat = InvalidFormat | Format SkColorType

fun createFormatFromBackendTexture :: "GrBackendTexture \<Rightarrow> GrBackendFormat" where
  "createFormatFromBackendTexture InvalidTexture = InvalidFormat"
| "createFormatFromBackendTexture (Texture h w ht ct) = Format ct"

record TextureRequest =
  trPixels :: "pixels option"
  trWidth :: int
  trHeight :: int
  trColorType :: SkColorType
  trRowBytes :: nat

text \<open>Modelled from the spec: the GPU backend is not among the sources. It is the
  capability "create-backend-texture-from-pixels(descriptor, buffer) gives a handle or a
  failure; delete-backend-texture(handle)". Which requests it declines is its own
  business (\<open>gpuAccepts\<close>); each texture it creates has a fresh handle.\<close>

record GrGpu =
  gpuAccepts :: "TextureRequest \<Rightarrow> bool"
  gpuNextHandle :: nat
  gpuDeleted :: "nat list"

definition createTestingOnlyBackendTexture ::
  "TextureRequest \<Rightarrow> GrGpu \<Rightarrow> GrBackendTexture \<times> GrGpu" where
  "createTestingOnlyBackendTexture req gpu =
     (if gpuAccepts gpu req
      then (Texture (gpuNextHandle gpu) (trWidth req) (trHeight req) (trColorType req),
            gpu\<lparr>gpuNextHandle := gpuNextHandle gpu + 1\<rparr>)
      else (InvalidTexture, gpu))"

fun deleteTestingOnlyBackendTexture :: "GrBackendTexture \<Rightarrow> GrGpu \<Rightarrow> GrGpu" where
  "deleteTestingOnlyBackendTexture InvalidTexture gpu = gpu"
| "deleteTestingOnlyBackendTexture (Texture h w ht ct) gpu = gpu\<lparr>gpuDeleted := gpuDeleted gpu @ [h]\<rparr>"

subsection \<open>Assertions and undefined behaviour\<close>

text \<open>A failed assertion stops the program with \<open>AssertFailed\<close> and the text of the
  condition. A read through a null pointer or outside an array is undefined behaviour in
  C++: the model stops there with \<open>UndefinedBehaviour\<close> and the expression that was read.\<close>

datatype fatal = AssertFailed string | UndefinedBehaviour string

record YUVAPromiseTextureArgs =
  yaYUVColorSpace :: SkYUVColorSpace
  yaFormats :: "GrBackendFormat quad"
  yaSizes :: "(int \<times> int) quad"
  yaIndices :: "SkYUVAIndex quad"
  yaWidth :: int
  yaHeight :: int
  yaOrigin :: GrSurfaceOrigin
  yaColorSpace :: "nat option"
  yaContexts :: "nat option quad"

text \<open>What the build and the rest of the library decide: whether assertions are compiled
  in, what \<open>SkYUVAIndex::AreValidIndices\<close> answers (validity and the number of planes), the
  row bytes \<open>allocPixels\<close> chooses for a descriptor, and the colour type and alpha type the
  recorder gives a YUVA promise image.\<close>

record Env =
  SK_DEBUG :: bool
  AreValidIndices :: "SkYUVAIndex quad \<Rightarrow> bool \<times> int"
  minRowBytes :: "SkImageInfo \<Rightarrow> nat"
  yuvaImageType :: "YUVAPromiseTextureArgs \<Rightarrow> SkColorType \<times> SkAlphaType"

text \<open>Modelled from the spec: the macros \<open>SkASSERT\<close> and \<open>SkAssertResult\<close> are not
  among the sources. The spec calls a check that fails a "fatal contract violation": that
  is the macro where assertions are compiled in (\<open>SK_DEBUG\<close>). Where they are compiled
  out the macro checks nothing and the program goes on.\<close>

definition SkASSERT_fails :: "Env \<Rightarrow> bool \<Rightarrow> bool" where
  "SkASSERT_fails env cond = (SK_DEBUG env \<and> \<not> cond)"

subsection \<open>Callback contexts\<close>

text \<open>A \<open>PromiseImageCallbackContext\<close> is a heap object shared through counted
  references: the heap is a list of cells, the address of a context is its position, and
  a destroyed context leaves \<open>None\<close>. \<open>new\<close> appends a cell with one reference.\<close>

record PromiseImageCallbackContext =
  fBackendTexture :: GrBackendTexture
  fRefCnt :: nat

type_synonym Heap = "PromiseImageCallbackContext option list"

definition heapGet :: "Heap \<Rightarrow> nat \<Rightarrow> PromiseImageCallbackContext option" where
  "heapGet heap a = (if a < length heap then heap ! a else None)"

definition newCallbackContext :: "Heap \<Rightarrow> nat \<times> Heap" where
  "newCallbackContext heap =
     (length heap, heap @ [Some \<lparr>fBackendTexture = InvalidTexture, fRefCnt = 1\<rparr>])"

definition setBackendTexture :: "nat \<Rightarrow> GrBackendTexture \<Rightarrow> Heap \<Rightarrow> Heap" where
  "setBackendTexture a tex heap =
     (case heapGet heap a of
        None \<Rightarrow> heap
      | Some c \<Rightarrow> heap[a := Some (c\<lparr>fBackendTexture := tex\<rparr>)])"

definition ref :: "nat \<Rightarrow> Heap \<Rightarrow> Heap" where
  "ref a heap =
     (case heapGet heap a of
        None \<Rightarrow> heap
      | Some c \<Rightarrow> heap[a := Some (c\<lparr>fRefCnt := fRefCnt c + 1\<rparr>)])"

text \<open>The destructor of the file: the texture is deleted when it is valid.\<close>

definition PromiseImageCallbackContext_destroy ::
  "PromiseImageCallbackContext \<Rightarrow> GrGpu \<Rightarrow> GrGpu" where
  "PromiseImageCallbackContext_destroy c gpu =
     (if isValid (fBackendTexture c)
      then deleteTestingOnlyBackendTexture (fBackendTexture c) gpu else gpu)"

definition unref :: "nat \<Rightarrow> Heap \<times> GrGpu \<Rightarrow> Heap \<times> GrGpu" where
  "unref a st =
     (case heapGet (fst st) a of
        None \<Rightarrow> st
      | Some c \<Rightarrow>
          if fRefCnt c \<le> 1
          then ((fst st)[a := None], PromiseImageCallbackContext_destroy c (snd st))
          else ((fst st)[a := Some (c\<lparr>fRefCnt := fRefCnt c - 1\<rparr>)], snd st))"

subsection \<open>Catalogue entries\<close>

text \<open>Modelled from the spec: the class \<open>PromiseImageInfo\<close> is declared in
  \<open>DDLPromiseImageHelper.h\<close>, which is not among the sources. Its members are the ones
  the file reads and writes through the accessors it calls: the index (the "permanent
  position in catalog"), the identity of the original image, the overall descriptor, the
  "normal" bitmap or the YUV representation, and the callback contexts, one slot per
  plane, null until upload fills them in.\<close>

record PromiseImageInfo =
  index :: int
  originalUniqueID :: "32 word"
  overallII :: SkImageInfo
  normalBitmap :: SkBitmap
  yuvData :: "nat option"
  yuvColorSpace :: SkYUVColorSpace
  yuvaIndices :: "SkYUVAIndex quad"
  yuvPixmaps :: "SkPixmap quad"
  callbackContexts :: "nat option quad"

definition PromiseImageInfo_new :: "int \<Rightarrow> 32 word \<Rightarrow> SkImageInfo \<Rightarrow> PromiseImageInfo" where
  "PromiseImageInfo_new idx uid ii =
     \<lparr>index = idx, originalUniqueID = uid, overallII = ii, normalBitmap = emptyBitmap,
      yuvData = None, yuvColorSpace = kJPEG_SkYUVColorSpace,
      yuvaIndices = Quad \<lparr>fIndex = -1, fChannel = 0\<rparr> \<lparr>fIndex = -1, fChannel = 0\<rparr>
                         \<lparr>fIndex = -1, fChannel = 0\<rparr> \<lparr>fIndex = -1, fChannel = 0\<rparr>,
      yuvPixmaps = Quad emptyPixmap emptyPixmap emptyPixmap emptyPixmap,
      callbackContexts = Quad None None None None\<rparr>"

definition isYUV :: "PromiseImageInfo \<Rightarrow> bool" where
  "isYUV info = (yuvData info \<noteq> None)"

definition overallWidth :: "PromiseImageInfo \<Rightarrow> int" where
  "overallWidth info = iiWidth (overallII info)"

definition overallHeight :: "PromiseImageInfo \<Rightarrow> int" where
  "overallHeight info = iiHeight (overallII info)"

definition overallColorType :: "PromiseImageInfo \<Rightarrow> SkColorType" where
  "overallColorType info = iiColorType (overallII info)"

definition overallAlphaType :: "PromiseImageInfo \<Rightarrow> SkAlphaType" where
  "overallAlphaType info = iiAlphaType (overallII info)"

definition refOverallColorSpace :: "PromiseImageInfo \<Rightarrow> nat option" where
  "refOverallColorSpace info = iiColorSpace (overallII info)"

definition setNormalBitmap :: "SkBitmap \<Rightarrow> PromiseImageInfo \<Rightarrow> PromiseImageInfo" where
  "setNormalBitmap bm info = info\<lparr>normalBitmap := bm\<rparr>"

definition setYUVData ::
  "nat \<Rightarrow> SkYUVAIndex quad \<Rightarrow> SkYUVColorSpace \<Rightarrow> PromiseImageInfo \<Rightarrow> PromiseImageInfo" where
  "setYUVData d idxs cs info = info\<lparr>yuvData := Some d, yuvColorSpace := cs, yuvaIndices := idxs\<rparr>"

definition addYUVPlane ::
  "nat \<Rightarrow> SkImageInfo \<Rightarrow> pixels option \<Rightarrow> nat \<Rightarrow> PromiseImageInfo \<Rightarrow> PromiseImageInfo" where
  "addYUVPlane i ii plane widthBytes info =
     info\<lparr>yuvPixmaps := qset (yuvPixmaps info) i \<lparr>pmInfo = ii, pmAddr = plane, pmRowBytes = widthBytes\<rparr>\<rparr>"

text \<open>\<open>backendTexture(i)\<close> reads the texture through the context pointer of slot \<open>i\<close>.\<close>

definition backendTexture :: "Heap \<Rightarrow> PromiseImageInfo \<Rightarrow> nat \<Rightarrow> fatal + GrBackendTexture" where
  "backendTexture heap info i =
     (if kMaxCount \<le> i then Inl (UndefinedBehaviour ''fCallbackContexts[index]'')
      else case qget (callbackContexts info) i of
        None \<Rightarrow> Inl (UndefinedBehaviour ''fCallbackContexts[index]->backendTexture()'')
      | Some a \<Rightarrow>
          (case heapGet heap a of
             None \<Rightarrow> Inl (UndefinedBehaviour ''fCallbackContexts[index]->backendTexture()'')
           | Some c \<Rightarrow> Inr (fBackendTexture c)))"

text \<open>\<open>refCallbackContext(i).release()\<close>: a new counted reference to the context of slot
  \<open>i\<close>, handed out as a plain pointer; the count of the context goes up by one.\<close>

definition refCallbackContext_release :: "Heap \<Rightarrow> PromiseImageInfo \<Rightarrow> nat \<Rightarrow> nat option \<times> Heap" where
  "refCallbackContext_release heap info i =
     (case qget (callbackContexts info) i of
        None \<Rightarrow> (None, heap)
      | Some a \<Rightarrow> (Some a, ref a heap))"

text \<open>\<open>setCallbackContext(plane, ctx)\<close> stores the reference in the slot; the reference
  the slot held before, if any, is dropped.\<close>

definition setCallbackContext ::
  "nat \<Rightarrow> nat \<Rightarrow> PromiseImageInfo \<times> Heap \<times> GrGpu \<Rightarrow> PromiseImageInfo \<times> Heap \<times> GrGpu" where
  "setCallbackContext plane a st =
     (case st of (info, heap, gpu) \<Rightarrow>
        let (heap', gpu') = (case qget (callbackContexts info) plane of
                               None \<Rightarrow> (heap, gpu)
                             | Some old \<Rightarrow> unref old (heap, gpu))
        in (info\<lparr>callbackContexts := qset (callbackContexts info) plane (Some a)\<rparr>, heap', gpu'))"

subsection \<open>The catalogue: lookup and registration\<close>

text \<open>The helper's only data member is \<open>fImageInfo\<close>, the array of entries.\<close>

type_synonym DDLPromiseImageHelper = "PromiseImageInfo list"

definition count :: "DDLPromiseImageHelper \<Rightarrow> int" where
  "count fImageInfo = int (length fImageInfo)"

text \<open>Modelled from the spec: \<open>isValidID\<close> and \<open>getInfo\<close> are defined in the header,
  which is not among the sources. \<open>isValidID\<close> is the spec's bounds check (an index is
  valid when it names an existing entry) and \<open>getInfo\<close> reads the entry at the index.\<close>

definition isValidID :: "DDLPromiseImageHelper \<Rightarrow> int \<Rightarrow> bool" where
  "isValidID fImageInfo i = (0 \<le> i \<and> i < count fImageInfo)"

definition getInfo :: "DDLPromiseImageHelper \<Rightarrow> int \<Rightarrow> fatal + PromiseImageInfo" where
  "getInfo fImageInfo idx =
     (if 0 \<le> idx \<and> idx < count fImageInfo then Inr (fImageInfo ! nat idx)
      else Inl (UndefinedBehaviour ''fImageInfo[index]''))"

function findImage_loop :: "Env \<Rightarrow> DDLPromiseImageHelper \<Rightarrow> SkImage \<Rightarrow> nat \<Rightarrow> fatal + int" where
  "findImage_loop env fImageInfo img i =
     (if int i < count fImageInfo then
        (if originalUniqueID (fImageInfo ! i) = uniqueID img then
           (if SkASSERT_fails env (index (fImageInfo ! i) = int i)
            then Inl (AssertFailed ''fImageInfo[i].index() == i'')
            else if SkASSERT_fails env (isValidID fImageInfo (int i) \<and>
                                        isValidID fImageInfo (index (fImageInfo ! i)))
            then Inl (AssertFailed ''isValidID(i) && isValidID(fImageInfo[i].index())'')
            else Inr (int i))
         else findImage_loop env fImageInfo img (i + 1))
      else Inr (-1))"
  by pat_completeness auto

termination
  by (relation "measure (\<lambda>(env, fImageInfo, img, i). length fImageInfo - i)")
     (auto simp: count_def)

definition findImage :: "Env \<Rightarrow> DDLPromiseImageHelper \<Rightarrow> SkImage \<Rightarrow> fatal + int" where
  "findImage env fImageInfo img = findImage_loop env fImageInfo img 0"

text \<open>The first loop of the YUV branch of \<open>addImage\<close>: the colour type of each plane
  from the index mapping. \<open>colorTypes\<close> has four elements and the code does not check
  \<open>texIdx\<close> against that.\<close>

fun colorTypes_loop ::
  "Env \<Rightarrow> SkYUVAIndex quad \<Rightarrow> nat list \<Rightarrow> SkColorType quad \<Rightarrow> fatal + SkColorType quad" where
  "colorTypes_loop env yuvaIdx [] colorTypes = Inr colorTypes"
| "colorTypes_loop env yuvaIdx (yuvIndex # rest) colorTypes =
     (let texIdx = fIndex (qget yuvaIdx yuvIndex) in
      if texIdx < 0 then
        (if SkASSERT_fails env (kA_Index = yuvIndex)
         then Inl (AssertFailed ''SkYUVAIndex::kA_Index == yuvIndex'')
         else colorTypes_loop env yuvaIdx rest colorTypes)
      else if int kMaxCount \<le> texIdx then Inl (UndefinedBehaviour ''colorTypes[texIdx]'')
      else if kUnknown_SkColorType = qget colorTypes (nat texIdx)
      then colorTypes_loop env yuvaIdx rest (qset colorTypes (nat texIdx) kAlpha_8_SkColorType)
      else colorTypes_loop env yuvaIdx rest (qset colorTypes (nat texIdx) kRGBA_8888_SkColorType))"

text \<open>The second loop: one pixmap per plane that is not empty.\<close>

fun planes_loop ::
  "Env \<Rightarrow> YUVPlanes \<Rightarrow> SkColorType quad \<Rightarrow> nat list \<Rightarrow> PromiseImageInfo \<Rightarrow> fatal + PromiseImageInfo" where
  "planes_loop env yuv colorTypes [] newImageInfo = Inr newImageInfo"
| "planes_loop env yuv colorTypes (i # rest) newImageInfo =
     (if isEmpty (qget (fSizes (ypSizeInfo yuv)) i) then
        (if SkASSERT_fails env (qget (fWidthBytes (ypSizeInfo yuv)) i = 0 \<and>
                                kUnknown_SkColorType = qget colorTypes i)
         then Inl (AssertFailed ''!yuvaSizeInfo.fWidthBytes[i] && kUnknown_SkColorType == colorTypes[i]'')
         else planes_loop env yuv colorTypes rest newImageInfo)
      else
        (let planeII = SkImageInfo_Make (fst (qget (fSizes (ypSizeInfo yuv)) i))
                                        (snd (qget (fSizes (ypSizeInfo yuv)) i))
                                        (qget colorTypes i) kUnpremul_SkAlphaType None
         in planes_loop env yuv colorTypes rest
              (addYUVPlane i planeII (qget (ypPlanes yuv) i)
                           (qget (fWidthBytes (ypSizeInfo yuv)) i) newImageInfo)))"

text \<open>\<open>addImage\<close>: the new entry is appended first (\<open>emplace_back\<close>), with the count of
  entries as its index, and filled in afterwards through the reference to it. Where the
  pixels cannot be read the function returns \<open>-1\<close>; the entry has been appended by then.\<close>

definition addImage ::
  "Env \<Rightarrow> DDLPromiseImageHelper \<Rightarrow> SkImage \<Rightarrow> fatal + (int \<times> DDLPromiseImageHelper)" where
  "addImage env fImageInfo img =
     (let overallII = SkImageInfo_Make (width img) (height img) (colorType img)
                                       (alphaType img) (refColorSpace img);
          newImageInfo = PromiseImageInfo_new (count fImageInfo) (uniqueID img) overallII
      in case getPlanes img of
           Some yuv \<Rightarrow>
             (case colorTypes_loop env (ypIndices yuv) [0 ..< kIndexCount]
                     (Quad kUnknown_SkColorType kUnknown_SkColorType
                           kUnknown_SkColorType kUnknown_SkColorType) of
                Inl e \<Rightarrow> Inl e
              | Inr colorTypes \<Rightarrow>
                  (case planes_loop env yuv colorTypes [0 ..< kMaxCount]
                          (setYUVData (ypData yuv) (ypIndices yuv) (ypColorSpace yuv) newImageInfo) of
                     Inl e \<Rightarrow> Inl e
                   | Inr filled \<Rightarrow> Inr (count (fImageInfo @ [filled]) - 1, fImageInfo @ [filled])))
         | None \<Rightarrow>
             (case makeRasterImage img of
                NullRasterImage \<Rightarrow> Inl (UndefinedBehaviour ''rasterImage->readPixels'')
              | ReadPixelsFails \<Rightarrow> Inr (-1, fImageInfo @ [newImageInfo])
              | ReadPixels px \<Rightarrow>
                  (let tmp = \<lparr>bmInfo = overallII, bmPixels = Some px,
                              bmRowBytes = minRowBytes env overallII, bmImmutable = False\<rparr>;
                       filled = setNormalBitmap (tmp\<lparr>bmImmutable := True\<rparr>) newImageInfo
                   in Inr (count (fImageInfo @ [filled]) - 1, fImageInfo @ [filled]))))"

definition findOrDefineImage ::
  "Env \<Rightarrow> DDLPromiseImageHelper \<Rightarrow> SkImage \<Rightarrow> fatal + (int \<times> DDLPromiseImageHelper)" where
  "findOrDefineImage env fImageInfo img =
     (case findImage env fImageInfo img of
        Inl e \<Rightarrow> Inl e
      | Inr preExistingID \<Rightarrow>
          if 0 \<le> preExistingID then
            (if SkASSERT_fails env (isValidID fImageInfo preExistingID)
             then Inl (AssertFailed ''isValidID(preExistingID)'')
             else Inr (preExistingID, fImageInfo))
          else
            (case addImage env fImageInfo img of
               Inl e \<Rightarrow> Inl e
             | Inr (newID, fImageInfo') \<Rightarrow>
                 if SkASSERT_fails env (isValidID fImageInfo' newID)
                 then Inl (AssertFailed ''isValidID(newID)'')
                 else Inr (newID, fImageInfo')))"

text \<open>Modelled from the spec: the serializer (\<open>SkPicture::serialize\<close>) is not among the
  sources. It "walks a draw-command tree and invokes pluggable substitution hooks at each
  embedded-image node": a picture is the list of its embedded images, in the order of the
  walk. The hook of \<open>deflateSKP\<close> answers with the four bytes of the index, or with null,
  and then the serializer embeds the image itself.\<close>

record Payload =
  rawIndex :: int
  rawLength :: nat

datatype ImageNode = Substituted Payload | Embedded SkImage

fun deflateSKP ::
  "Env \<Rightarrow> DDLPromiseImageHelper \<Rightarrow> SkImage list \<Rightarrow> fatal + (ImageNode list \<times> DDLPromiseImageHelper)" where
  "deflateSKP env helper [] = Inr ([], helper)"
| "deflateSKP env helper (img # rest) =
     (case findOrDefineImage env helper img of
        Inl e \<Rightarrow> Inl e
      | Inr (ident, helper') \<Rightarrow>
          if 0 \<le> ident \<and> SkASSERT_fails env (isValidID helper' ident)
          then Inl (AssertFailed ''helper->isValidID(id)'')
          else (case deflateSKP env helper' rest of
                  Inl e \<Rightarrow> Inl e
                | Inr (nodes, helper'') \<Rightarrow>
                    Inr ((if 0 \<le> ident then Substituted \<lparr>rawIndex = ident, rawLength = 4\<rparr>
                          else Embedded img) # nodes, helper'')))"

fun payloads :: "ImageNode list \<Rightarrow> Payload list" where
  "payloads [] = []"
| "payloads (Substituted p # nodes) = p # payloads nodes"
| "payloads (Embedded img # nodes) = payloads nodes"

subsection \<open>Upload\<close>

definition requestOfPixmap :: "SkPixmap \<Rightarrow> TextureRequest" where
  "requestOfPixmap pm =
     \<lparr>trPixels = pmAddr pm, trWidth = iiWidth (pmInfo pm), trHeight = iiHeight (pmInfo pm),
      trColorType = iiColorType (pmInfo pm), trRowBytes = pmRowBytes pm\<rparr>"

definition requestOfBitmap :: "SkBitmap \<Rightarrow> TextureRequest" where
  "requestOfBitmap bm =
     \<lparr>trPixels = bmPixels bm, trWidth = iiWidth (bmInfo bm), trHeight = iiHeight (bmInfo bm),
      trColorType = iiColorType (bmInfo bm), trRowBytes = bmRowBytes bm\<rparr>"

text \<open>The inner loop of \<open>uploadAllToGPU\<close>, over the planes of a YUV entry.\<close>

function uploadYUV_loop ::
  "Env \<Rightarrow> int \<Rightarrow> nat \<Rightarrow> PromiseImageInfo \<times> Heap \<times> GrGpu \<Rightarrow>
   fatal + (PromiseImageInfo \<times> Heap \<times> GrGpu)" where
  "uploadYUV_loop env numPixmaps j st =
     (if int j < numPixmaps then
        (if kMaxCount \<le> j then Inl (UndefinedBehaviour ''fYUVPlanes[index]'')
         else
           (case st of (info, heap, gpu) \<Rightarrow>
              (case newCallbackContext heap of (a, heap1) \<Rightarrow>
                 (case createTestingOnlyBackendTexture
                         (requestOfPixmap (qget (yuvPixmaps info) j)) gpu of (tex, gpu1) \<Rightarrow>
                    if SkASSERT_fails env (isValid tex)
                    then Inl (AssertFailed ''callbackContext->backendTexture().isValid()'')
                    else uploadYUV_loop env numPixmaps (j + 1)
                           (setCallbackContext j a (info, setBackendTexture a tex heap1, gpu1))))))
      else Inr st)"
  by pat_completeness auto

termination
  by (relation "measure (\<lambda>(env, numPixmaps, j, st). nat numPixmaps - j)") auto

text \<open>The body of the outer loop: one entry.\<close>

definition uploadEntry ::
  "Env \<Rightarrow> PromiseImageInfo \<times> Heap \<times> GrGpu \<Rightarrow> fatal + (PromiseImageInfo \<times> Heap \<times> GrGpu)" where
  "uploadEntry env st =
     (case st of (info, heap, gpu) \<Rightarrow>
        if isYUV info then
          (case AreValidIndices env (yuvaIndices info) of (valid, numPixmaps) \<Rightarrow>
             if SkASSERT_fails env valid
             then Inl (AssertFailed ''SkYUVAIndex::AreValidIndices(info.yuvaIndices(), &numPixmaps)'')
             else uploadYUV_loop env numPixmaps 0 st)
        else
          (case newCallbackContext heap of (a, heap1) \<Rightarrow>
             (case createTestingOnlyBackendTexture (requestOfBitmap (normalBitmap info)) gpu of
                (tex, gpu1) \<Rightarrow>
                  Inr (setCallbackContext 0 a (info, setBackendTexture a tex heap1, gpu1)))))"

text \<open>The outer loop, over the entries. The context of the model always has a GPU, so
  \<open>SkASSERT(gpu)\<close> holds.\<close>

function uploadAllToGPU_loop ::
  "Env \<Rightarrow> nat \<Rightarrow> DDLPromiseImageHelper \<times> Heap \<times> GrGpu \<Rightarrow>
   fatal + (DDLPromiseImageHelper \<times> Heap \<times> GrGpu)" where
  "uploadAllToGPU_loop env i st =
     (case st of (fImageInfo, heap, gpu) \<Rightarrow>
        if int i < count fImageInfo then
          (case uploadEntry env (fImageInfo ! i, heap, gpu) of
             Inl e \<Rightarrow> Inl e
           | Inr (info', heap', gpu') \<Rightarrow>
               uploadAllToGPU_loop env (i + 1) (fImageInfo[i := info'], heap', gpu'))
        else Inr st)"
  by pat_completeness auto

termination
  by (relation "measure (\<lambda>(env, i, st). length (fst st) - i)") (auto simp: count_def)

definition uploadAllToGPU ::
  "Env \<Rightarrow> DDLPromiseImageHelper \<times> Heap \<times> GrGpu \<Rightarrow>
   fatal + (DDLPromiseImageHelper \<times> Heap \<times> GrGpu)" where
  "uploadAllToGPU env st = uploadAllToGPU_loop env 0 st"

subsection \<open>Reinflation\<close>

record PromiseTextureArgs =
  ptFormat :: GrBackendFormat
  ptWidth :: int
  ptHeight :: int
  ptMipMapped :: GrMipMapped
  ptOrigin :: GrSurfaceOrigin
  ptColorType :: SkColorType
  ptAlphaType :: SkAlphaType
  ptColorSpace :: "nat option"
  ptContext :: "nat option"

text \<open>Modelled from the spec: the recorder and \<open>SkImage::MakeFromBitmap\<close> are not among
  the sources. The recorder is the capability "mint-promise-image(single-plane descriptor
  + fulfill/release/done) gives an image; mint-promise-image(YUV descriptor set +
  fulfill/release/done) gives an image": each call makes a new image object, named by the
  recorder and the number of images the recorder made before, which keeps the arguments
  it was minted with (the three callbacks are the same in every call and are left out).
  The fallback is "an ordinary immutable CPU-backed image from the captured fallback
  buffer"; a bitmap without pixels gives no image.\<close>

datatype MadeImage =
    RasterImage SkBitmap
  | PromiseTexture nat nat PromiseTextureArgs
  | YUVAPromiseTexture nat nat YUVAPromiseTextureArgs

record SkDeferredDisplayListRecorder =
  recorderID :: nat
  imagesMade :: nat

definition makePromiseTexture ::
  "SkDeferredDisplayListRecorder \<Rightarrow> PromiseTextureArgs \<Rightarrow>
   MadeImage option \<times> SkDeferredDisplayListRecorder" where
  "makePromiseTexture recorder args =
     (Some (PromiseTexture (recorderID recorder) (imagesMade recorder) args),
      recorder\<lparr>imagesMade := imagesMade recorder + 1\<rparr>)"

definition makeYUVAPromiseTexture ::
  "SkDeferredDisplayListRecorder \<Rightarrow> YUVAPromiseTextureArgs \<Rightarrow>
   MadeImage option \<times> SkDeferredDisplayListRecorder" where
  "makeYUVAPromiseTexture recorder args =
     (Some (YUVAPromiseTexture (recorderID recorder) (imagesMade recorder) args),
      recorder\<lparr>imagesMade := imagesMade recorder + 1\<rparr>)"

definition MakeFromBitmap :: "SkBitmap \<Rightarrow> MadeImage option" where
  "MakeFromBitmap bm = (case bmPixels bm of None \<Rightarrow> None | Some px \<Rightarrow> Some (RasterImage bm))"

record PerRecorderContext =
  fRecorder :: SkDeferredDisplayListRecorder
  fPromiseImages :: "MadeImage option list"

record YUVAArrays =
  backendFormats :: "GrBackendFormat quad"
  contexts :: "nat option quad"
  sizes :: "(int \<times> int) quad"

text \<open>The first loop of the YUV branch of \<open>PromiseImageCreator\<close>: per plane, the format
  of its texture, a new reference to its context and the size of its pixmap.\<close>

function yuvaPlanes_loop ::
  "PromiseImageInfo \<Rightarrow> int \<Rightarrow> nat \<Rightarrow> YUVAArrays \<times> Heap \<Rightarrow> fatal + (YUVAArrays \<times> Heap)" where
  "yuvaPlanes_loop curImage textureCount i st =
     (if int i < textureCount then
        (case backendTexture (snd st) curImage i of
           Inl e \<Rightarrow> Inl e
         | Inr backendTex \<Rightarrow>
             (case refCallbackContext_release (snd st) curImage i of (c, heap') \<Rightarrow>
                yuvaPlanes_loop curImage textureCount (i + 1)
                  ((fst st)\<lparr>backendFormats := qset (backendFormats (fst st)) i
                                                  (createFormatFromBackendTexture backendTex),
                            contexts := qset (contexts (fst st)) i c,
                            sizes := qset (sizes (fst st)) i
                                       (iiWidth (pmInfo (qget (yuvPixmaps curImage) i)),
                                        iiHeight (pmInfo (qget (yuvPixmaps curImage) i)))\<rparr>,
                   heap')))
      else Inr st)"
  by pat_completeness auto

termination
  by (relation "measure (\<lambda>(curImage, textureCount, i, st). nat textureCount - i)") auto

text \<open>\<open>PromiseImageCreator\<close>: the state is the per-recorder context (the recorder
  and the list of promise images) and the heap of callback contexts. \<open>curImage.caps()\<close>
  is only handed to \<open>createFormatFromBackendTexture\<close>, which is a function of the texture
  here. The three callbacks are the same in every call and are not among the arguments.\<close>

definition PromiseImageCreator ::
  "Env \<Rightarrow> DDLPromiseImageHelper \<Rightarrow> Payload \<Rightarrow> PerRecorderContext \<times> Heap \<Rightarrow>
   fatal + (MadeImage option \<times> PerRecorderContext \<times> Heap)" where
  "PromiseImageCreator env helper rawData st =
     (case st of (perRecorderContext, heap) \<Rightarrow>
      if SkASSERT_fails env (rawLength rawData = 4)
      then Inl (AssertFailed ''length == sizeof(int)'')
      else if rawLength rawData < 4 then Inl (UndefinedBehaviour ''*indexPtr'')
      else if SkASSERT_fails env (isValidID helper (rawIndex rawData))
      then Inl (AssertFailed ''helper->isValidID(*indexPtr)'')
      else
      (case getInfo helper (rawIndex rawData) of
         Inl e \<Rightarrow> Inl e
       | Inr curImage \<Rightarrow>
      (case backendTexture heap curImage 0 of
         Inl e \<Rightarrow> Inl e
       | Inr tex0 \<Rightarrow>
           if \<not> isValid tex0 then
             (if SkASSERT_fails env (\<not> isYUV curImage)
              then Inl (AssertFailed ''!curImage.isYUV()'')
              else if SkASSERT_fails env (bmImmutable (normalBitmap curImage))
              then Inl (AssertFailed ''curImage.normalBitmap().isImmutable()'')
              else Inr (MakeFromBitmap (normalBitmap curImage), perRecorderContext, heap))
           else if SkASSERT_fails env (index curImage = rawIndex rawData)
           then Inl (AssertFailed ''curImage.index() == *indexPtr'')
           else
             (case
                (if isYUV curImage then
                   (case AreValidIndices env (yuvaIndices curImage) of (valid, textureCount) \<Rightarrow>
                      if SkASSERT_fails env valid
                      then Inl (AssertFailed ''SkYUVAIndex::AreValidIndices(curImage.yuvaIndices(), &textureCount)'')
                      else
                        (case yuvaPlanes_loop curImage textureCount 0
                                (\<lparr>backendFormats = Quad InvalidFormat InvalidFormat InvalidFormat InvalidFormat,
                                  contexts = Quad None None None None,
                                  sizes = Quad (0, 0) (0, 0) (0, 0) (0, 0)\<rparr>, heap) of
                           Inl e \<Rightarrow> Inl e
                         | Inr (arrays, heap') \<Rightarrow>
                             if textureCount < 0 then Inl (UndefinedBehaviour ''sizes[i]'')
                             else
                               (case makeYUVAPromiseTexture (fRecorder perRecorderContext)
                                       \<lparr>yaYUVColorSpace = yuvColorSpace curImage,
                                        yaFormats = backendFormats arrays,
                                        yaSizes = fold (\<lambda>i s. qset s i (0, 0))
                                                    [nat textureCount ..< kMaxCount] (sizes arrays),
                                        yaIndices = yuvaIndices curImage,
                                        yaWidth = overallWidth curImage,
                                        yaHeight = overallHeight curImage,
                                        yaOrigin = kTopLeft_GrSurfaceOrigin,
                                        yaColorSpace = refOverallColorSpace curImage,
                                        yaContexts = contexts arrays\<rparr> of
                                  (img, recorder') \<Rightarrow> Inr (img, recorder', heap'))))
                 else
                   (case refCallbackContext_release heap curImage 0 of (c, heap') \<Rightarrow>
                      (case makePromiseTexture (fRecorder perRecorderContext)
                              \<lparr>ptFormat = createFormatFromBackendTexture tex0,
                               ptWidth = overallWidth curImage,
                               ptHeight = overallHeight curImage,
                               ptMipMapped = kNo,
                               ptOrigin = kTopLeft_GrSurfaceOrigin,
                               ptColorType = overallColorType curImage,
                               ptAlphaType = overallAlphaType curImage,
                               ptColorSpace = refOverallColorSpace curImage,
                               ptContext = c\<rparr> of
                         (img, recorder') \<Rightarrow> Inr (img, recorder', heap'))))
              of
                Inl e \<Rightarrow> Inl e
              | Inr (img, recorder', heap') \<Rightarrow>
                  if SkASSERT_fails env (img \<noteq> None) then Inl (AssertFailed ''image'')
                  else Inr (img,
                            perRecorderContext\<lparr>fRecorder := recorder',
                                               fPromiseImages := fPromiseImages perRecorderContext @ [img]\<rparr>,
                            heap')))))"

text \<open>Modelled from the spec: the deserializer (\<open>SkPicture::MakeFromData\<close>) is not among
  the sources. It runs the hook "at each substitution-payload node" of the stream, in
  order, and splices the image the hook returns into the picture: the stream is the list
  of its payloads and the picture the list of the images.\<close>

fun MakeFromData ::
  "Env \<Rightarrow> DDLPromiseImageHelper \<Rightarrow> Payload list \<Rightarrow> PerRecorderContext \<times> Heap \<Rightarrow>
   fatal + (MadeImage option list \<times> PerRecorderContext \<times> Heap)" where
  "MakeFromData env helper [] st = Inr ([], st)"
| "MakeFromData env helper (p # rest) st =
     (case PromiseImageCreator env helper p st of
        Inl e \<Rightarrow> Inl e
      | Inr (img, st') \<Rightarrow>
          (case MakeFromData env helper rest st' of
             Inl e \<Rightarrow> Inl e
           | Inr (images, st'') \<Rightarrow> Inr (img # images, st'')))"

definition reinflateSKP ::
  "Env \<Rightarrow> DDLPromiseImageHelper \<Rightarrow> SkDeferredDisplayListRecorder \<Rightarrow> Payload list \<Rightarrow>
   MadeImage option list \<Rightarrow> Heap \<Rightarrow>
   fatal + (MadeImage option list \<times> SkDeferredDisplayListRecorder \<times> MadeImage option list \<times> Heap)" where
  "reinflateSKP env helper recorder compressedPictureData promiseImages heap =
     (case MakeFromData env helper compressedPictureData
             (\<lparr>fRecorder = recorder, fPromiseImages = promiseImages\<rparr>, heap) of
        Inl e \<Rightarrow> Inl e
      | Inr (picture, perRecorderContext, heap') \<Rightarrow>
          Inr (picture, fRecorder perRecorderContext, fPromiseImages perRecorderContext, heap'))"

subsection \<open>Notions used in the statements\<close>

text \<open>Two catalogues agree on the identities and indices of the entries of the first;
  the entry \<open>addImage\<close> appends before it fills it in; the stored indices are the
  positions; no entry has a callback context yet; \<open>findOrDefineImage\<close> called \<open>n\<close> times
  in a row with one image.\<close>

definition sameIdentities :: "DDLPromiseImageHelper \<Rightarrow> DDLPromiseImageHelper \<Rightarrow> bool" where
  "sameIdentities c c' =
     (length c \<le> length c' \<and>
      (\<forall>j < length c. originalUniqueID (c' ! j) = originalUniqueID (c ! j)
                       \<and> index (c' ! j) = index (c ! j)))"

definition capturedEntry :: "DDLPromiseImageHelper \<Rightarrow> SkImage \<Rightarrow> PromiseImageInfo" where
  "capturedEntry c img =
     PromiseImageInfo_new (count c) (uniqueID img)
       (SkImageInfo_Make (width img) (height img) (colorType img) (alphaType img) (refColorSpace img))"

definition indexInvariant :: "DDLPromiseImageHelper \<Rightarrow> bool" where
  "indexInvariant c = (map index c = map int [0 ..< length c])"

definition notUploaded :: "DDLPromiseImageHelper \<Rightarrow> bool" where
  "notUploaded c = list_all (\<lambda>e. callbackContexts e = Quad None None None None) c"

fun registerTimes ::
  "Env \<Rightarrow> SkImage \<Rightarrow> nat \<Rightarrow> DDLPromiseImageHelper \<Rightarrow> fatal + (int list \<times> DDLPromiseImageHelper)" where
  "registerTimes env img 0 c = Inr ([], c)"
| "registerTimes env img (Suc n) c =
     (case findOrDefineImage env c img of
        Inl e \<Rightarrow> Inl e
      | Inr (i, c') \<Rightarrow>
          (case registerTimes env img n c' of
             Inl e \<Rightarrow> Inl e
           | Inr (is, c'') \<Rightarrow> Inr (i # is, c'')))"

text \<open>Two entries that differ in the callback contexts at most; a context with one
  reference; the contexts of the planes of an entry (\<open>AreValidIndices\<close> gives the number
  of planes of a YUV entry, a single-plane entry has slot 0); the count and the texture of
  the context at an address; the contexts a token gets a new reference to when it is
  resolved.\<close>

definition sameButContexts :: "PromiseImageInfo \<Rightarrow> PromiseImageInfo \<Rightarrow> bool" where
  "sameButContexts e e' = (e'\<lparr>callbackContexts := callbackContexts e\<rparr> = e)"

definition freshCell :: "PromiseImageCallbackContext option \<Rightarrow> bool" where
  "freshCell x = (case x of None \<Rightarrow> False | Some c \<Rightarrow> fRefCnt c = 1)"

definition planeSlots :: "Env \<Rightarrow> PromiseImageInfo \<Rightarrow> nat option list" where
  "planeSlots env e =
     (if isYUV e
      then map (qget (callbackContexts e)) [0 ..< nat (snd (AreValidIndices env (yuvaIndices e)))]
      else [qget (callbackContexts e) 0])"

definition refCntOf :: "Heap \<Rightarrow> nat \<Rightarrow> nat" where
  "refCntOf heap a = (case heapGet heap a of None \<Rightarrow> 0 | Some c \<Rightarrow> fRefCnt c)"

definition textureOf :: "Heap \<Rightarrow> nat \<Rightarrow> GrBackendTexture option" where
  "textureOf heap a = map_option fBackendTexture (heapGet heap a)"

definition sameTextures :: "Heap \<Rightarrow> Heap \<Rightarrow> bool" where
  "sameTextures heap heap' = (length heap' = length heap \<and> (\<forall>a. textureOf heap' a = textureOf heap a))"

definition mintedSlots :: "Env \<Rightarrow> DDLPromiseImageHelper \<Rightarrow> Heap \<Rightarrow> Payload \<Rightarrow> nat option list" where
  "mintedSlots env helper heap p =
     (case getInfo helper (rawIndex p) of
        Inl e \<Rightarrow> []
      | Inr curImage \<Rightarrow>
          (case backendTexture heap curImage 0 of
             Inl e \<Rightarrow> []
           | Inr tex \<Rightarrow> if isValid tex then planeSlots env curImage else []))"

text \<open>What can be seen of an image: whether the recorder minted it, by which recorder
  and as which of its images, the contexts it refers to, and its descriptor. The colour
  type and the alpha type of a YUVA promise image are the recorder's choice.\<close>

fun isPromiseImage :: "MadeImage option \<Rightarrow> bool" where
  "isPromiseImage None = False"
| "isPromiseImage (Some (RasterImage bm)) = False"
| "isPromiseImage (Some (PromiseTexture r s args)) = True"
| "isPromiseImage (Some (YUVAPromiseTexture r s args)) = True"

fun imageMintedBy :: "MadeImage \<Rightarrow> (nat \<times> nat) option" where
  "imageMintedBy (RasterImage bm) = None"
| "imageMintedBy (PromiseTexture r s args) = Some (r, s)"
| "imageMintedBy (YUVAPromiseTexture r s args) = Some (r, s)"

fun imageContexts :: "MadeImage \<Rightarrow> nat option list" where
  "imageContexts (RasterImage bm) = []"
| "imageContexts (PromiseTexture r s args) = [ptContext args]"
| "imageContexts (YUVAPromiseTexture r s args) = map (qget (yaContexts args)) [0 ..< 4]"

fun imageWidth :: "MadeImage \<Rightarrow> int" where
  "imageWidth (RasterImage bm) = iiWidth (bmInfo bm)"
| "imageWidth (PromiseTexture r s args) = ptWidth args"
| "imageWidth (YUVAPromiseTexture r s args) = yaWidth args"

fun imageHeight :: "MadeImage \<Rightarrow> int" where
  "imageHeight (RasterImage bm) = iiHeight (bmInfo bm)"
| "imageHeight (PromiseTexture r s args) = ptHeight args"
| "imageHeight (YUVAPromiseTexture r s args) = yaHeight args"

fun imageColorType :: "Env \<Rightarrow> MadeImage \<Rightarrow> SkColorType" where
  "imageColorType env (RasterImage bm) = iiColorType (bmInfo bm)"
| "imageColorType env (PromiseTexture r s args) = ptColorType args"
| "imageColorType env (YUVAPromiseTexture r s args) = fst (yuvaImageType env args)"

fun imageAlphaType :: "Env \<Rightarrow> MadeImage \<Rightarrow> SkAlphaType" where
  "imageAlphaType env (RasterImage bm) = iiAlphaType (bmInfo bm)"
| "imageAlphaType env (PromiseTexture r s args) = ptAlphaType args"
| "imageAlphaType env (YUVAPromiseTexture r s args) = snd (yuvaImageType env args)"

text \<open>Texture 0 of an entry is valid; what resolving a token gives, as a relation
  between the token and the image; \<open>reinflateSKP\<close> called once for each recorder of a
  list, each call with an empty output list, on the same stream.\<close>

definition textureValid :: "Heap \<Rightarrow> PromiseImageInfo \<Rightarrow> bool" where
  "textureValid heap e = (case backendTexture heap e 0 of Inl err \<Rightarrow> False | Inr t \<Rightarrow> isValid t)"

definition resolvedAs ::
  "Env \<Rightarrow> DDLPromiseImageHelper \<Rightarrow> Heap \<Rightarrow> nat \<Rightarrow> Payload \<Rightarrow> MadeImage option \<Rightarrow> bool" where
  "resolvedAs env helper heap rid p img =
     (isValidID helper (rawIndex p) \<and>
      (if textureValid heap (helper ! nat (rawIndex p))
       then (\<exists>im s. img = Some im \<and> isPromiseImage img
               \<and> imageMintedBy im = Some (rid, s)
               \<and> set (imageContexts im) - {None} = set (planeSlots env (helper ! nat (rawIndex p)))
               \<and> imageWidth im = overallWidth (helper ! nat (rawIndex p))
               \<and> imageHeight im = overallHeight (helper ! nat (rawIndex p))
               \<and> (isYUV (helper ! nat (rawIndex p)) \<or>
                    imageColorType env im = overallColorType (helper ! nat (rawIndex p))
                  \<and> imageAlphaType env im = overallAlphaType (helper ! nat (rawIndex p))))
       else img = MakeFromBitmap (normalBitmap (helper ! nat (rawIndex p)))
            \<and> \<not> isPromiseImage img))"

fun reinflateAll ::
  "Env \<Rightarrow> DDLPromiseImageHelper \<Rightarrow> Payload list \<Rightarrow> SkDeferredDisplayListRecorder list \<Rightarrow> Heap \<Rightarrow>
   fatal + ((MadeImage option list \<times> MadeImage option list) list \<times> Heap)" where
  "reinflateAll env helper ts [] heap = Inr ([], heap)"
| "reinflateAll env helper ts (r # rs) heap =
     (case reinflateSKP env helper r ts [] heap of
        Inl e \<Rightarrow> Inl e
      | Inr (picture, r', promiseImages, heap') \<Rightarrow>
          (case reinflateAll env helper ts rs heap' of
             Inl e \<Rightarrow> Inl e
           | Inr (results, heap'') \<Rightarrow> Inr ((picture, promiseImages) # results, heap'')))"

subsection \<open>A sample scenario\<close>

text \<open>A picture with four image nodes: image A (identity 7, 512 by 512, RGBA, opaque),
  image B (identity 8, 512 by 512, BGRA, three YUV planes), a large image (identity 10,
  8192 by 8192) and image A again. Deflating it into the empty catalogue gives three
  entries and the tokens 0, 1, 2, 0. The GPU declines textures larger than 4096, so
  upload gives entry 0 the context 0, entry 1 the contexts 1, 2 and 3, and entry 2 the
  context 4, whose texture is not valid. Three recorders reinflate the stream. A fourth
  image (identity 9) has no YUV planes and pixels that cannot be read. \<open>projr\<close> takes the
  result out of a call that returned.\<close>

definition sampleAreValidIndices :: "SkYUVAIndex quad \<Rightarrow> bool \<times> int" where
  "sampleAreValidIndices q =
     (0 \<le> fIndex (qget q 0) \<and> 0 \<le> fIndex (qget q 1) \<and> 0 \<le> fIndex (qget q 2)
      \<and> fIndex (qget q 0) < 4 \<and> fIndex (qget q 1) < 4 \<and> fIndex (qget q 2) < 4
      \<and> fIndex (qget q 3) < 4,
      max (max (fIndex (qget q 0)) (fIndex (qget q 1)))
          (max (fIndex (qget q 2)) (fIndex (qget q 3))) + 1)"

definition sampleEnv :: "bool \<Rightarrow> Env" where
  "sampleEnv dbg =
     \<lparr>SK_DEBUG = dbg, AreValidIndices = sampleAreValidIndices,
      minRowBytes = (\<lambda>ii. 4 * nat (iiWidth ii)),
      yuvaImageType = (\<lambda>args. (kRGBA_8888_SkColorType,
                         if 0 \<le> fIndex (qget (yaIndices args) 3)
                         then kPremul_SkAlphaType else kOpaque_SkAlphaType))\<rparr>"

definition imageA :: SkImage where
  "imageA = \<lparr>uniqueID = 7, width = 512, height = 512, colorType = kRGBA_8888_SkColorType,
             alphaType = kOpaque_SkAlphaType, refColorSpace = None, getPlanes = None,
             makeRasterImage = ReadPixels [1, 2, 3, 4]\<rparr>"

definition planesB :: YUVPlanes where
  "planesB = \<lparr>ypData = 1,
     ypSizeInfo = \<lparr>fSizes = Quad (512, 512) (256, 256) (256, 256) (0, 0),
                   fWidthBytes = Quad 512 256 256 0\<rparr>,
     ypIndices = Quad \<lparr>fIndex = 0, fChannel = 0\<rparr> \<lparr>fIndex = 1, fChannel = 0\<rparr>
                      \<lparr>fIndex = 2, fChannel = 0\<rparr> \<lparr>fIndex = -1, fChannel = 0\<rparr>,
     ypColorSpace = kJPEG_SkYUVColorSpace,
     ypPlanes = Quad (Some [10]) (Some [20]) (Some [30]) None\<rparr>"

definition imageB :: SkImage where
  "imageB = \<lparr>uniqueID = 8, width = 512, height = 512, colorType = kBGRA_8888_SkColorType,
             alphaType = kOpaque_SkAlphaType, refColorSpace = None, getPlanes = Some planesB,
             makeRasterImage = NullRasterImage\<rparr>"

definition imageBad :: SkImage where
  "imageBad = \<lparr>uniqueID = 9, width = 4, height = 4, colorType = kRGBA_8888_SkColorType,
             alphaType = kOpaque_SkAlphaType, refColorSpace = None, getPlanes = None,
             makeRasterImage = ReadPixelsFails\<rparr>"

definition sampleGpu :: "(TextureRequest \<Rightarrow> bool) \<Rightarrow> GrGpu" where
  "sampleGpu accepts = \<lparr>gpuAccepts = accepts, gpuNextHandle = 1, gpuDeleted = []\<rparr>"

definition capturedBitmap :: "Env \<Rightarrow> SkImage \<Rightarrow> pixels \<Rightarrow> SkBitmap" where
  "capturedBitmap env img px =
     \<lparr>bmInfo = SkImageInfo_Make (width img) (height img) (colorType img) (alphaType img)
                 (refColorSpace img),
      bmPixels = Some px,
      bmRowBytes = minRowBytes env (SkImageInfo_Make (width img) (height img) (colorType img)
                                      (alphaType img) (refColorSpace img)),
      bmImmutable = True\<rparr>"

definition imageBig :: SkImage where
  "imageBig = \<lparr>uniqueID = 10, width = 8192, height = 8192, colorType = kRGBA_8888_SkColorType,
             alphaType = kPremul_SkAlphaType, refColorSpace = None, getPlanes = None,
             makeRasterImage = ReadPixels [5, 6, 7, 8]\<rparr>"

definition smallTexturesOnly :: "TextureRequest \<Rightarrow> bool" where
  "smallTexturesOnly r = (trWidth r \<le> 4096 \<and> trHeight r \<le> 4096)"

definition samplePicture :: "SkImage list" where
  "samplePicture = [imageA, imageB, imageBig, imageA]"

definition sampleCatalog :: DDLPromiseImageHelper where
  "sampleCatalog = snd (projr (deflateSKP (sampleEnv True) [] samplePicture))"

definition sampleStream :: "Payload list" where
  "sampleStream = payloads (fst (projr (deflateSKP (sampleEnv True) [] samplePicture)))"

definition sampleUploaded :: "DDLPromiseImageHelper \<times> Heap \<times> GrGpu" where
  "sampleUploaded = projr (uploadAllToGPU (sampleEnv True) (sampleCatalog, [], sampleGpu smallTexturesOnly))"

definition sampleRecorders :: "SkDeferredDisplayListRecorder list" where
  "sampleRecorders = [\<lparr>recorderID = 1, imagesMade = 0\<rparr>, \<lparr>recorderID = 2, imagesMade = 0\<rparr>,
                      \<lparr>recorderID = 3, imagesMade = 0\<rparr>]"

definition sampleNodes :: "ImageNode list" where
  "sampleNodes = fst (projr (deflateSKP (sampleEnv True) [] samplePicture))"

definition sampleReinflated ::
  "(MadeImage option list \<times> MadeImage option list) list \<times> Heap" where
  "sampleReinflated =
     projr (reinflateAll (sampleEnv True) (fst sampleUploaded) sampleStream sampleRecorders
              (fst (snd sampleUploaded)))"

definition sampleContext :: PerRecorderContext where
  "sampleContext = \<lparr>fRecorder = \<lparr>recorderID = 1, imagesMade = 0\<rparr>, fPromiseImages = []\<rparr>"

definition sampleOne ::
  "MadeImage option list \<times> SkDeferredDisplayListRecorder \<times> MadeImage option list \<times> Heap" where
  "sampleOne = projr (reinflateSKP (sampleEnv True) (fst sampleUploaded)
                        \<lparr>recorderID = 1, imagesMade = 0\<rparr> sampleStream [] (fst (snd sampleUploaded)))"

definition imageB2 :: SkImage where
  "imageB2 = imageB\<lparr>colorType := kRGBA_8888_SkColorType, alphaType := kPremul_SkAlphaType\<rparr>"

definition sampleUploaded2 :: "DDLPromiseImageHelper \<times> Heap \<times> GrGpu" where
  "sampleUploaded2 =
     projr (uploadAllToGPU (sampleEnv True)
              (snd (projr (deflateSKP (sampleEnv True) [] [imageA, imageB2, imageBig, imageA])),
               [], sampleGpu smallTexturesOnly))"


section \<open>Lemmas about the catalogue\<close>

subsection \<open>Lookup\<close>

declare findImage_loop.simps [simp del]

declare uploadYUV_loop.simps [simp del]

declare uploadAllToGPU_loop.simps [simp del]

declare yuvaPlanes_loop.simps [simp del]

lemma qget_qset: "i < 4 \<Longrightarrow> j < 4 \<Longrightarrow> qget (qset q i v) j = (if i = j then v else qget q j)"
  by (cases q) auto

text \<open>findImage: the first entry with the identity, from position k on.\<close>

lemma findImage_loop_none:
  "(\<And>j. k \<le> j \<Longrightarrow> j < length c \<Longrightarrow> originalUniqueID (c ! j) \<noteq> uniqueID img)
   \<Longrightarrow> findImage_loop env c img k = Inr (-1)"
proof (induction env c img k rule: findImage_loop.induct)
  case (1 env c img i)
  show ?case
  proof (cases "int i < count c")
    case True
    then have ne: "originalUniqueID (c ! i) \<noteq> uniqueID img"
      using "1.prems" [of i] by (simp add: count_def)
    have "findImage_loop env c img (i + 1) = Inr (-1)"
      using True ne "1.prems" by (intro "1.IH") auto
    then show ?thesis
      using True ne by (subst findImage_loop.simps) simp
  next
    case False
    then show ?thesis by (subst findImage_loop.simps) simp
  qed
qed

lemma findImage_loop_first:
  "k \<le> i \<Longrightarrow> i < length c \<Longrightarrow> originalUniqueID (c ! i) = uniqueID img
   \<Longrightarrow> (\<And>j. k \<le> j \<Longrightarrow> j < i \<Longrightarrow> originalUniqueID (c ! j) \<noteq> uniqueID img)
   \<Longrightarrow> findImage_loop env c img k =
       (if SkASSERT_fails env (index (c ! i) = int i)
        then Inl (AssertFailed ''fImageInfo[i].index() == i'')
        else if SkASSERT_fails env (isValidID c (int i) \<and> isValidID c (index (c ! i)))
        then Inl (AssertFailed ''isValidID(i) && isValidID(fImageInfo[i].index())'')
        else Inr (int i))"
proof (induction env c img k rule: findImage_loop.induct)
  case (1 env c img k)
  show ?case
  proof (cases "k = i")
    case True
    then show ?thesis
      using "1.prems" by (subst findImage_loop.simps) (simp add: count_def)
  next
    case False
    then have lt: "k < i" using "1.prems" by simp
    then have ne: "originalUniqueID (c ! k) \<noteq> uniqueID img"
      using "1.prems"(4) [of k] by simp
    have "findImage_loop env c img (k + 1) =
       (if SkASSERT_fails env (index (c ! i) = int i)
        then Inl (AssertFailed ''fImageInfo[i].index() == i'')
        else if SkASSERT_fails env (isValidID c (int i) \<and> isValidID c (index (c ! i)))
        then Inl (AssertFailed ''isValidID(i) && isValidID(fImageInfo[i].index())'')
        else Inr (int i))"
      using lt ne "1.prems" by (intro "1.IH") (auto simp: count_def)
    then show ?thesis
      using lt ne "1.prems" by (subst findImage_loop.simps) (simp add: count_def)
  qed
qed

lemma findImage_loop_result:
  "findImage_loop env c img k = Inr r \<Longrightarrow>
     (r = -1 \<and> (\<forall>j. k \<le> j \<and> j < length c \<longrightarrow> originalUniqueID (c ! j) \<noteq> uniqueID img))
   \<or> (int k \<le> r \<and> r < int (length c) \<and> originalUniqueID (c ! nat r) = uniqueID img
       \<and> (\<forall>j. k \<le> j \<and> j < nat r \<longrightarrow> originalUniqueID (c ! j) \<noteq> uniqueID img)
       \<and> \<not> SkASSERT_fails env (index (c ! nat r) = r)
       \<and> \<not> SkASSERT_fails env (isValidID c (index (c ! nat r))))"
proof (induction env c img k rule: findImage_loop.induct)
  case (1 env c img k)
  show ?case
  proof (cases "int k < count c")
    case False
    then show ?thesis
      using "1.prems" by (subst (asm) findImage_loop.simps) (auto simp: count_def)
  next
    case True
    show ?thesis
    proof (cases "originalUniqueID (c ! k) = uniqueID img")
      case hit: True
      then show ?thesis
        using True "1.prems"
        by (subst (asm) findImage_loop.simps)
           (auto simp: count_def SkASSERT_fails_def split: if_splits)
    next
      case miss: False
      then have rec: "findImage_loop env c img (k + 1) = Inr r"
        using True "1.prems" by (subst (asm) findImage_loop.simps) simp
      from "1.IH" [OF True miss rec] show ?thesis
      proof
        assume a: "r = -1 \<and> (\<forall>j. k + 1 \<le> j \<and> j < length c \<longrightarrow> originalUniqueID (c ! j) \<noteq> uniqueID img)"
        have "\<forall>j. k \<le> j \<and> j < length c \<longrightarrow> originalUniqueID (c ! j) \<noteq> uniqueID img"
        proof (intro allI impI)
          fix j assume "k \<le> j \<and> j < length c"
          then show "originalUniqueID (c ! j) \<noteq> uniqueID img"
            using a miss by (cases "j = k") auto
        qed
        then show ?thesis using a by simp
      next
        assume b: "int (k + 1) \<le> r \<and> r < int (length c) \<and> originalUniqueID (c ! nat r) = uniqueID img
       \<and> (\<forall>j. k + 1 \<le> j \<and> j < nat r \<longrightarrow> originalUniqueID (c ! j) \<noteq> uniqueID img)
       \<and> \<not> SkASSERT_fails env (index (c ! nat r) = r)
       \<and> \<not> SkASSERT_fails env (isValidID c (index (c ! nat r)))"
        have "\<forall>j. k \<le> j \<and> j < nat r \<longrightarrow> originalUniqueID (c ! j) \<noteq> uniqueID img"
        proof (intro allI impI)
          fix j assume "k \<le> j \<and> j < nat r"
          then show "originalUniqueID (c ! j) \<noteq> uniqueID img"
            using b miss by (cases "j = k") auto
        qed
        then show ?thesis using b by auto
      qed
    qed
  qed
qed

lemma sameIdentities_refl: "sameIdentities c c"
  by (simp add: sameIdentities_def)

lemma sameIdentities_trans:
  "sameIdentities a b \<Longrightarrow> sameIdentities b c \<Longrightarrow> sameIdentities a c"
  by (auto simp: sameIdentities_def)

lemma sameIdentities_append: "sameIdentities c (c @ ys)"
  by (simp add: sameIdentities_def nth_append)

lemma findImage_stable:
  assumes found: "findImage env c img = Inr i" and nonneg: "0 \<le> i"
    and ext: "sameIdentities c c'" and same: "uniqueID img' = uniqueID img"
  shows "findImage env c' img' = Inr i"
proof -
  from found have "findImage_loop env c img 0 = Inr i" by (simp add: findImage_def)
  from findImage_loop_result [OF this] nonneg
  have r: "i < int (length c)" "originalUniqueID (c ! nat i) = uniqueID img"
    "\<forall>j. j < nat i \<longrightarrow> originalUniqueID (c ! j) \<noteq> uniqueID img"
    "\<not> SkASSERT_fails env (index (c ! nat i) = i)"
    "\<not> SkASSERT_fails env (isValidID c (index (c ! nat i)))"
    by auto
  have lt: "nat i < length c" using r(1) nonneg by simp
  have lt': "nat i < length c'" using lt ext by (simp add: sameIdentities_def)
  have k: "originalUniqueID (c' ! nat i) = uniqueID img'" "index (c' ! nat i) = index (c ! nat i)"
    using lt ext r(2) same by (simp_all add: sameIdentities_def)
  have first: "\<And>j. 0 \<le> j \<Longrightarrow> j < nat i \<Longrightarrow> originalUniqueID (c' ! j) \<noteq> uniqueID img'"
    using r(3) lt ext same by (simp add: sameIdentities_def)
  have a1: "\<not> SkASSERT_fails env (index (c' ! nat i) = int (nat i))"
    using r(4) k nonneg by simp
  have a2: "\<not> SkASSERT_fails env (isValidID c' (int (nat i)) \<and> isValidID c' (index (c' ! nat i)))"
    using r(5) k lt' nonneg ext
    by (auto simp: SkASSERT_fails_def isValidID_def count_def sameIdentities_def)
  have "findImage_loop env c' img' 0 = Inr (int (nat i))"
    using findImage_loop_first [of 0 "nat i" c' img' env, OF _ lt' k(1) first] a1 a2
    by simp
  then show ?thesis using nonneg by (simp add: findImage_def)
qed

subsection \<open>Registration\<close>

lemma planes_loop_fields:
  "planes_loop env yuv cts is e = Inr e' \<Longrightarrow> e' = e\<lparr>yuvPixmaps := yuvPixmaps e'\<rparr>"
proof (induction "is" arbitrary: e)
  case Nil
  then show ?case by simp
next
  case (Cons i "is")
  show ?case
  proof (cases "isEmpty (qget (fSizes (ypSizeInfo yuv)) i)")
    case True
    then have "planes_loop env yuv cts is e = Inr e'"
      using Cons.prems by (simp split: if_splits)
    then show ?thesis by (rule Cons.IH)
  next
    case False
    let ?e1 = "addYUVPlane i
                (SkImageInfo_Make (fst (qget (fSizes (ypSizeInfo yuv)) i))
                   (snd (qget (fSizes (ypSizeInfo yuv)) i)) (qget cts i) kUnpremul_SkAlphaType None)
                (qget (ypPlanes yuv) i) (qget (fWidthBytes (ypSizeInfo yuv)) i) e"
    have "planes_loop env yuv cts is ?e1 = Inr e'"
      using Cons.prems False by (simp add: Let_def)
    from Cons.IH [OF this] have "e' = ?e1\<lparr>yuvPixmaps := yuvPixmaps e'\<rparr>" .
    then show ?thesis by (simp add: addYUVPlane_def)
  qed
qed

declare colorTypes_loop.simps [simp del] planes_loop.simps [simp del]

lemma addImage_raster:
  "getPlanes img = None \<Longrightarrow>
   addImage env c img =
     (case makeRasterImage img of
        NullRasterImage \<Rightarrow> Inl (UndefinedBehaviour ''rasterImage->readPixels'')
      | ReadPixelsFails \<Rightarrow> Inr (-1, c @ [capturedEntry c img])
      | ReadPixels px \<Rightarrow>
          Inr (count c, c @ [(capturedEntry c img)
                 \<lparr>normalBitmap := \<lparr>bmInfo = overallII (capturedEntry c img), bmPixels = Some px,
                      bmRowBytes = minRowBytes env (overallII (capturedEntry c img)),
                      bmImmutable = True\<rparr>\<rparr>]))"
  by (simp add: addImage_def Let_def capturedEntry_def setNormalBitmap_def count_def
                PromiseImageInfo_new_def
           split: RasterResult.split)

lemma addImage_yuv:
  "getPlanes img = Some yuv \<Longrightarrow> addImage env c img = Inr (r, c') \<Longrightarrow>
   \<exists>pm. r = count c \<and>
        c' = c @ [(capturedEntry c img)\<lparr>yuvData := Some (ypData yuv),
                     yuvColorSpace := ypColorSpace yuv, yuvaIndices := ypIndices yuv,
                     yuvPixmaps := pm\<rparr>]"
proof -
  assume yuv: "getPlanes img = Some yuv" and res: "addImage env c img = Inr (r, c')"
  let ?cts = "colorTypes_loop env (ypIndices yuv) [0 ..< kIndexCount]
                (Quad kUnknown_SkColorType kUnknown_SkColorType
                      kUnknown_SkColorType kUnknown_SkColorType)"
  let ?e0 = "setYUVData (ypData yuv) (ypIndices yuv) (ypColorSpace yuv) (capturedEntry c img)"
  have unfolded: "addImage env c img =
      (case ?cts of Inl e \<Rightarrow> Inl e
       | Inr colorTypes \<Rightarrow>
          (case planes_loop env yuv colorTypes [0 ..< kMaxCount] ?e0 of
             Inl e \<Rightarrow> Inl e
           | Inr filled \<Rightarrow> Inr (count (c @ [filled]) - 1, c @ [filled])))"
    using yuv unfolding addImage_def Let_def capturedEntry_def by simp
  obtain cts where cts: "?cts = Inr cts"
    using res unfolding unfolded by (cases ?cts) simp_all
  obtain filled where f: "planes_loop env yuv cts [0 ..< kMaxCount] ?e0 = Inr filled"
    using res by (cases "planes_loop env yuv cts [0 ..< kMaxCount] ?e0") (simp_all add: unfolded cts)
  have rc: "r = count c" "c' = c @ [filled]"
    using res by (simp_all add: unfolded cts f count_def)
  from planes_loop_fields [OF f] have "filled = ?e0\<lparr>yuvPixmaps := yuvPixmaps filled\<rparr>" .
  then have "filled = (capturedEntry c img)\<lparr>yuvData := Some (ypData yuv),
                     yuvColorSpace := ypColorSpace yuv, yuvaIndices := ypIndices yuv,
                     yuvPixmaps := yuvPixmaps filled\<rparr>"
    by (simp add: setYUVData_def)
  then show ?thesis using rc by blast
qed

lemma addImage_shape:
  assumes "addImage env c img = Inr (r, c')"
  shows "\<exists>e. c' = c @ [e] \<and> index e = count c \<and> originalUniqueID e = uniqueID img
            \<and> overallII e = overallII (capturedEntry c img)
            \<and> callbackContexts e = Quad None None None None
            \<and> (r = count c \<or> r = -1)"
proof (cases "getPlanes img")
  case None
  show ?thesis
  proof (cases "makeRasterImage img")
    case NullRasterImage
    then show ?thesis using assms None by (simp add: addImage_raster)
  next
    case ReadPixelsFails
    then show ?thesis using assms None
      by (auto simp: addImage_raster capturedEntry_def PromiseImageInfo_new_def)
  next
    case (ReadPixels px)
    then show ?thesis using assms None
      by (auto simp: addImage_raster capturedEntry_def PromiseImageInfo_new_def)
  qed
next
  case (Some yuv)
  from addImage_yuv [OF Some assms] obtain pm where
    "r = count c" "c' = c @ [(capturedEntry c img)\<lparr>yuvData := Some (ypData yuv),
                     yuvColorSpace := ypColorSpace yuv, yuvaIndices := ypIndices yuv,
                     yuvPixmaps := pm\<rparr>]" by blast
  then show ?thesis
    by (simp add: capturedEntry_def PromiseImageInfo_new_def)
qed

lemma indexInvariant_nth: "indexInvariant c \<Longrightarrow> j < length c \<Longrightarrow> index (c ! j) = int j"
proof -
  assume inv: "indexInvariant c" and lt: "j < length c"
  have "index (c ! j) = map index c ! j" using lt by simp
  also have "\<dots> = map int [0 ..< length c] ! j" using inv by (simp add: indexInvariant_def)
  also have "\<dots> = int j" using lt by simp
  finally show ?thesis .
qed

lemma indexInvariant_snoc:
  "indexInvariant c \<Longrightarrow> index e = count c \<Longrightarrow> indexInvariant (c @ [e])"
  by (simp add: indexInvariant_def count_def)

lemma findImage_result:
  assumes "findImage env c img = Inr r"
  shows "r = -1 \<or> (0 \<le> r \<and> r < count c)"
  using findImage_loop_result [of env c img 0 r] assms
  by (auto simp: findImage_def count_def)

lemma findOrDefineImage_cases:
  assumes "findOrDefineImage env c img = Inr (i, c')"
  shows "(0 \<le> i \<and> c' = c \<and> findImage env c img = Inr i)
       \<or> (findImage env c img = Inr (-1) \<and> addImage env c img = Inr (i, c')
          \<and> \<not> SkASSERT_fails env (isValidID c' i))"
proof (cases "findImage env c img")
  case (Inl e)
  then show ?thesis using assms by (simp add: findOrDefineImage_def)
next
  case (Inr p)
  show ?thesis
  proof (cases "0 \<le> p")
    case True
    then show ?thesis
      using assms Inr by (auto simp: findOrDefineImage_def split: if_splits)
  next
    case False
    then have p: "p = -1" using findImage_result [OF Inr] by auto
    show ?thesis
      using assms Inr False p
      by (auto simp: findOrDefineImage_def split: sum.splits if_splits)
  qed
qed

lemma findImage_after_add:
  assumes miss: "findImage env c img = Inr (-1)"
    and add: "addImage env c img = Inr (i, c')"
  shows "findImage env c' img = Inr (count c)"
proof -
  from addImage_shape [OF add] obtain e where
    e: "c' = c @ [e]" "index e = count c" "originalUniqueID e = uniqueID img" by blast
  from miss have "findImage_loop env c img 0 = Inr (-1)" by (simp add: findImage_def)
  from findImage_loop_result [OF this]
  have none: "\<forall>j. j < length c \<longrightarrow> originalUniqueID (c ! j) \<noteq> uniqueID img" by auto
  have "findImage_loop env c' img 0 = Inr (int (length c))"
    using findImage_loop_first [of 0 "length c" c' img env] e none
    by (simp add: nth_append SkASSERT_fails_def isValidID_def count_def)
  then show ?thesis by (simp add: findImage_def count_def)
qed

lemma findOrDefineImage_found:
  assumes "findOrDefineImage env c img = Inr (i, c')" and "0 \<le> i"
  shows "findImage env c' img = Inr i"
  using findOrDefineImage_cases [OF assms(1)]
proof
  assume "0 \<le> i \<and> c' = c \<and> findImage env c img = Inr i"
  then show ?thesis by simp
next
  assume a: "findImage env c img = Inr (-1) \<and> addImage env c img = Inr (i, c')
          \<and> \<not> SkASSERT_fails env (isValidID c' i)"
  from addImage_shape [of env c img i c'] a assms(2) have "i = count c" by auto
  then show ?thesis using findImage_after_add [of env c img i c'] a by simp
qed

lemma findOrDefineImage_hit:
  assumes "findImage env c img = Inr i" and "0 \<le> i"
  shows "findOrDefineImage env c img = Inr (i, c)"
  using assms findImage_result [OF assms(1)]
  by (simp add: findOrDefineImage_def SkASSERT_fails_def isValidID_def)

lemma findOrDefineImage_grows:
  assumes "findOrDefineImage env c img = Inr (i, c')"
  shows "\<exists>ys. c' = c @ ys
          \<and> length ys = (if findImage env c img = Inr (-1) then 1 else 0)
          \<and> list_all (\<lambda>e. callbackContexts e = Quad None None None None) ys
          \<and> map index ys = map int [length c ..< length c + length ys]"
  using findOrDefineImage_cases [OF assms]
proof
  assume "0 \<le> i \<and> c' = c \<and> findImage env c img = Inr i"
  then show ?thesis by auto
next
  assume a: "findImage env c img = Inr (-1) \<and> addImage env c img = Inr (i, c')
          \<and> \<not> SkASSERT_fails env (isValidID c' i)"
  from addImage_shape [of env c img i c'] a obtain e where
    "c' = c @ [e]" "index e = count c" "callbackContexts e = Quad None None None None" by blast
  then show ?thesis using a by (simp add: count_def)
qed

lemma registerTimes_same:
  assumes "findImage env c img = Inr i" and "0 \<le> i"
  shows "registerTimes env img n c = Inr (replicate n i, c)"
  by (induction n) (simp_all add: findOrDefineImage_hit [OF assms])

lemma deflateSKP_grows:
  "deflateSKP env c imgs = Inr (nodes, c') \<Longrightarrow>
   \<exists>ys. c' = c @ ys
      \<and> list_all (\<lambda>e. callbackContexts e = Quad None None None None) ys
      \<and> map index ys = map int [length c ..< length c + length ys]"
proof (induction imgs arbitrary: c nodes)
  case Nil
  then show ?case by simp
next
  case (Cons img imgs)
  obtain i c1 where first: "findOrDefineImage env c img = Inr (i, c1)"
    using Cons.prems by (cases "findOrDefineImage env c img") auto
  obtain nodes1 c2 where rest0: "deflateSKP env c1 imgs = Inr (nodes1, c2)"
    using Cons.prems first
    by (cases "deflateSKP env c1 imgs") (auto split: if_splits)
  have rest: "deflateSKP env c1 imgs = Inr (nodes1, c')"
    using Cons.prems first rest0 by (auto split: if_splits)
  from findOrDefineImage_grows [OF first] obtain ys where
    ys: "c1 = c @ ys" "list_all (\<lambda>e. callbackContexts e = Quad None None None None) ys"
        "map index ys = map int [length c ..< length c + length ys]" by blast
  from Cons.IH [OF rest] obtain zs where
    zs: "c' = c1 @ zs" "list_all (\<lambda>e. callbackContexts e = Quad None None None None) zs"
        "map index zs = map int [length c1 ..< length c1 + length zs]" by blast
  have "map index (ys @ zs) = map int [length c ..< length c + length (ys @ zs)]"
  proof -
    have "[length c ..< length c + length (ys @ zs)] =
          [length c ..< length c + length ys] @ [length c + length ys ..< length c + length ys + length zs]"
      using upt_add_eq_append [of "length c" "length c + length ys" "length zs"]
      by (simp add: add.assoc)
    then show ?thesis using ys zs by simp
  qed
  then show ?case using ys zs by (intro exI [of _ "ys @ zs"]) simp
qed

subsection \<open>Upload\<close>

lemma gpuAccepts_create:
  "gpuAccepts (snd (createTestingOnlyBackendTexture req gpu)) = gpuAccepts gpu"
  by (simp add: createTestingOnlyBackendTexture_def)

lemma isValid_create:
  "isValid (fst (createTestingOnlyBackendTexture req gpu)) = gpuAccepts gpu req"
  by (simp add: createTestingOnlyBackendTexture_def)

lemma setBackendTexture_new:
  "setBackendTexture (length heap) tex (heap @ [Some c]) = heap @ [Some (c\<lparr>fBackendTexture := tex\<rparr>)]"
  by (simp add: setBackendTexture_def heapGet_def)

lemma setCallbackContext_empty_slot:
  "qget (callbackContexts info) plane = None \<Longrightarrow>
   setCallbackContext plane a (info, heap, gpu) =
     (info\<lparr>callbackContexts := qset (callbackContexts info) plane (Some a)\<rparr>, heap, gpu)"
  by (simp add: setCallbackContext_def)

lemma uploadYUV_loop_step:
  assumes "int j < n" "j < 4" "qget (callbackContexts info) j = None"
  shows "uploadYUV_loop env n j (info, heap, gpu) =
     (if SkASSERT_fails env
           (isValid (fst (createTestingOnlyBackendTexture (requestOfPixmap (qget (yuvPixmaps info) j)) gpu)))
      then Inl (AssertFailed ''callbackContext->backendTexture().isValid()'')
      else uploadYUV_loop env n (j + 1)
             (info\<lparr>callbackContexts := qset (callbackContexts info) j (Some (length heap))\<rparr>,
              heap @ [Some \<lparr>fBackendTexture =
                               fst (createTestingOnlyBackendTexture
                                      (requestOfPixmap (qget (yuvPixmaps info) j)) gpu),
                             fRefCnt = 1\<rparr>],
              snd (createTestingOnlyBackendTexture (requestOfPixmap (qget (yuvPixmaps info) j)) gpu)))"
  using assms
  by (subst uploadYUV_loop.simps)
     (simp add: kMaxCount_def newCallbackContext_def setBackendTexture_new
                setCallbackContext_empty_slot split: prod.splits)

lemma uploadYUV_loop_done:
  "\<not> int j < n \<Longrightarrow> uploadYUV_loop env n j st = Inr st"
  by (subst uploadYUV_loop.simps) simp

lemma uploadYUV_loop_overrun:
  "int j < n \<Longrightarrow> 4 \<le> j \<Longrightarrow> uploadYUV_loop env n j st = Inl (UndefinedBehaviour ''fYUVPlanes[index]'')"
  by (subst uploadYUV_loop.simps) (simp add: kMaxCount_def)

lemma sameButContexts_refl: "sameButContexts e e"
  by (simp add: sameButContexts_def)

lemma sameButContexts_update: "sameButContexts e (e\<lparr>callbackContexts := cc\<rparr>)"
  by (simp add: sameButContexts_def)

lemma sameButContexts_trans:
  "sameButContexts a b \<Longrightarrow> sameButContexts b c \<Longrightarrow> sameButContexts a c"
  unfolding sameButContexts_def
  by (cases a, cases b, cases c) simp

lemma uploadYUV_loop_effect:
  assumes "uploadYUV_loop env n j (info, heap, gpu) = Inr (info', heap', gpu')"
    and "\<forall>m. j \<le> m \<and> m < 4 \<longrightarrow> qget (callbackContexts info) m = None"
  shows "sameButContexts info info'
     \<and> (\<forall>m<4. qget (callbackContexts info') m =
                 (if j \<le> m \<and> int m < n then Some (length heap + (m - j))
                  else qget (callbackContexts info) m))
     \<and> (\<exists>xs. heap' = heap @ xs \<and> length xs = nat n - j \<and> list_all freshCell xs)
     \<and> gpuAccepts gpu' = gpuAccepts gpu
     \<and> (int j < n \<longrightarrow> n \<le> 4)"
  using assms
proof (induction "nat n - j" arbitrary: j info heap gpu)
  case 0
  then have "\<not> int j < n" by linarith
  then show ?case using "0.prems" by (simp add: uploadYUV_loop_done sameButContexts_refl)
next
  case (Suc d)
  then have lt: "int j < n" by linarith
  have j4: "j < 4"
  proof (rule ccontr)
    assume "\<not> j < 4"
    then show False using Suc.prems(1) lt by (simp add: uploadYUV_loop_overrun)
  qed
  have slot: "qget (callbackContexts info) j = None" using Suc.prems(2) j4 by simp
  let ?cr = "createTestingOnlyBackendTexture (requestOfPixmap (qget (yuvPixmaps info) j)) gpu"
  let ?info1 = "info\<lparr>callbackContexts := qset (callbackContexts info) j (Some (length heap))\<rparr>"
  let ?heap1 = "heap @ [Some \<lparr>fBackendTexture = fst ?cr, fRefCnt = 1\<rparr>]"
  have rec: "uploadYUV_loop env n (j + 1) (?info1, ?heap1, snd ?cr) = Inr (info', heap', gpu')"
    using Suc.prems(1) uploadYUV_loop_step [OF lt j4 slot, of env heap gpu]
    by (simp split: if_splits)
  have pre: "\<forall>m. j + 1 \<le> m \<and> m < 4 \<longrightarrow> qget (callbackContexts ?info1) m = None"
    using Suc.prems(2) j4 by (simp add: qget_qset)
  have d: "d = nat n - (j + 1)" using Suc.hyps(2) by simp
  from Suc.hyps(1) [OF d rec pre]
  have ih: "sameButContexts ?info1 info'"
    "\<forall>m<4. qget (callbackContexts info') m =
                 (if j + 1 \<le> m \<and> int m < n then Some (length ?heap1 + (m - (j + 1)))
                  else qget (callbackContexts ?info1) m)"
    "\<exists>xs. heap' = ?heap1 @ xs \<and> length xs = nat n - (j + 1) \<and> list_all freshCell xs"
    "gpuAccepts gpu' = gpuAccepts (snd ?cr)"
    "int (j + 1) < n \<longrightarrow> n \<le> 4"
    by blast+
  have c1: "sameButContexts info info'"
    using sameButContexts_trans [OF sameButContexts_update ih(1)] .
  have c2: "\<forall>m<4. qget (callbackContexts info') m =
                 (if j \<le> m \<and> int m < n then Some (length heap + (m - j))
                  else qget (callbackContexts info) m)"
  proof (intro allI impI)
    fix m :: nat assume m4: "m < 4"
    show "qget (callbackContexts info') m =
                 (if j \<le> m \<and> int m < n then Some (length heap + (m - j))
                  else qget (callbackContexts info) m)"
    proof (cases "m = j")
      case True
      then show ?thesis using ih(2) m4 j4 lt by (simp add: qget_qset)
    next
      case False
      then show ?thesis using ih(2) m4 j4 lt by (auto simp: qget_qset)
    qed
  qed
  from ih(3) obtain xs where xs: "heap' = ?heap1 @ xs" "length xs = nat n - (j + 1)"
    "list_all freshCell xs" by blast
  have c3: "\<exists>ys. heap' = heap @ ys \<and> length ys = nat n - j \<and> list_all freshCell ys"
    using xs lt
    by (intro exI [of _ "Some \<lparr>fBackendTexture = fst ?cr, fRefCnt = 1\<rparr> # xs"])
       (auto simp: freshCell_def)
  have c4: "gpuAccepts gpu' = gpuAccepts gpu" using ih(4) by (simp add: gpuAccepts_create)
  have c5: "n \<le> 4" using ih(5) j4 by linarith
  show ?case using c1 c2 c3 c4 c5 by blast
qed

lemma sameButContexts_fields:
  assumes "sameButContexts e e'"
  shows "index e' = index e" "originalUniqueID e' = originalUniqueID e"
    "overallII e' = overallII e" "normalBitmap e' = normalBitmap e"
    "yuvData e' = yuvData e" "yuvColorSpace e' = yuvColorSpace e"
    "yuvaIndices e' = yuvaIndices e" "yuvPixmaps e' = yuvPixmaps e"
    "isYUV e' = isYUV e"
  using assms unfolding sameButContexts_def isYUV_def
  by (cases e, cases e', simp)+

lemma map_Some_upt: "map (\<lambda>m. Some (k + m)) [0 ..< n] = map Some [k ..< k + n]"
  by (induction n) simp_all

lemma uploadEntry_effect:
  assumes up: "uploadEntry env (info, heap, gpu) = Inr (info', heap', gpu')"
    and empty: "callbackContexts info = Quad None None None None"
  shows "sameButContexts info info'
     \<and> (\<exists>xs. heap' = heap @ xs \<and> list_all freshCell xs
             \<and> planeSlots env info' = map Some [length heap ..< length heap + length xs])
     \<and> gpuAccepts gpu' = gpuAccepts gpu
     \<and> (\<not> isYUV info \<longrightarrow>
           callbackContexts info' = Quad (Some (length heap)) None None None
         \<and> heap' = heap @ [Some \<lparr>fBackendTexture =
               fst (createTestingOnlyBackendTexture (requestOfBitmap (normalBitmap info)) gpu),
               fRefCnt = 1\<rparr>])"
proof (cases "isYUV info")
  case False
  let ?cr = "createTestingOnlyBackendTexture (requestOfBitmap (normalBitmap info)) gpu"
  have slot: "qget (callbackContexts info) 0 = None" using empty by simp
  have res: "info' = info\<lparr>callbackContexts := Quad (Some (length heap)) None None None\<rparr>"
    "heap' = heap @ [Some \<lparr>fBackendTexture = fst ?cr, fRefCnt = 1\<rparr>]" "gpu' = snd ?cr"
    using up False empty
    by (simp_all add: uploadEntry_def newCallbackContext_def setBackendTexture_new
          setCallbackContext_empty_slot split: prod.splits)
  have ps: "planeSlots env info' = [Some (length heap)]"
    using False res(1) by (simp add: planeSlots_def isYUV_def)
  show ?thesis
    using False res ps
    by (simp add: sameButContexts_update gpuAccepts_create freshCell_def)
next
  case True
  obtain valid n where avi: "AreValidIndices env (yuvaIndices info) = (valid, n)"
    by (cases "AreValidIndices env (yuvaIndices info)")
  have loop: "uploadYUV_loop env n 0 (info, heap, gpu) = Inr (info', heap', gpu')"
    using up True avi by (simp add: uploadEntry_def split: if_splits)
  have pre: "\<forall>m. 0 \<le> m \<and> m < 4 \<longrightarrow> qget (callbackContexts info) m = None"
    using empty by simp
  from uploadYUV_loop_effect [OF loop pre]
  have eff: "sameButContexts info info'"
    "\<forall>m<4. qget (callbackContexts info') m = (if int m < n then Some (length heap + m) else None)"
    "\<exists>xs. heap' = heap @ xs \<and> length xs = nat n \<and> list_all freshCell xs"
    "gpuAccepts gpu' = gpuAccepts gpu" "0 < n \<longrightarrow> n \<le> 4"
    using empty by auto
  from eff(3) obtain xs where xs: "heap' = heap @ xs" "length xs = nat n" "list_all freshCell xs"
    by blast
  have n4: "nat n \<le> 4" using eff(5) by linarith
  have "planeSlots env info' = map (qget (callbackContexts info')) [0 ..< nat n]"
    using True avi sameButContexts_fields [OF eff(1)] by (simp add: planeSlots_def)
  also have "\<dots> = map (\<lambda>m. Some (length heap + m)) [0 ..< nat n]"
    using eff(2) n4 by (intro map_cong) auto
  also have "\<dots> = map Some [length heap ..< length heap + nat n]" by (rule map_Some_upt)
  finally have ps: "planeSlots env info' = map Some [length heap ..< length heap + length xs]"
    using xs(2) by simp
  show ?thesis using True eff(1,4) xs ps by blast
qed

lemma uploadAllToGPU_loop_done:
  "\<not> i < length c \<Longrightarrow> uploadAllToGPU_loop env i (c, heap, gpu) = Inr (c, heap, gpu)"
  by (subst uploadAllToGPU_loop.simps) (simp add: count_def)

lemma uploadAllToGPU_loop_step:
  "i < length c \<Longrightarrow>
   uploadAllToGPU_loop env i (c, heap, gpu) =
     (case uploadEntry env (c ! i, heap, gpu) of
        Inl e \<Rightarrow> Inl e
      | Inr (info', heap', gpu') \<Rightarrow> uploadAllToGPU_loop env (i + 1) (c[i := info'], heap', gpu'))"
  by (subst uploadAllToGPU_loop.simps) (simp add: count_def)

lemma uploadAllToGPU_loop_effect:
  assumes "uploadAllToGPU_loop env i (c, heap, gpu) = Inr (c', heap', gpu')"
    and "\<forall>k. i \<le> k \<and> k < length c \<longrightarrow> callbackContexts (c ! k) = Quad None None None None"
  shows "length c' = length c
     \<and> (\<forall>k<length c. sameButContexts (c ! k) (c' ! k))
     \<and> (\<forall>k<i. c' ! k = c ! k)
     \<and> (\<exists>xs. heap' = heap @ xs \<and> list_all freshCell xs
            \<and> concat (map (planeSlots env) (drop i c')) = map Some [length heap ..< length heap + length xs])
     \<and> gpuAccepts gpu' = gpuAccepts gpu
     \<and> (\<forall>k. i \<le> k \<and> k < length c \<and> \<not> isYUV (c ! k) \<longrightarrow>
           (\<exists>a g. callbackContexts (c' ! k) = Quad (Some a) None None None
                \<and> length heap \<le> a \<and> a < length heap'
                \<and> heap' ! a = Some \<lparr>fBackendTexture =
                      fst (createTestingOnlyBackendTexture (requestOfBitmap (normalBitmap (c ! k))) g),
                      fRefCnt = 1\<rparr>
                \<and> gpuAccepts g = gpuAccepts gpu))"
  using assms
proof (induction "length c - i" arbitrary: i c heap gpu)
  case 0
  then have "\<not> i < length c" by simp
  then show ?case
    using "0.prems" by (simp add: uploadAllToGPU_loop_done sameButContexts_refl)
next
  case (Suc d)
  then have lt: "i < length c" by simp
  obtain info1 heap1 gpu1 where
    ent: "uploadEntry env (c ! i, heap, gpu) = Inr (info1, heap1, gpu1)"
    using Suc.prems(1) lt
    by (cases "uploadEntry env (c ! i, heap, gpu)") (auto simp: uploadAllToGPU_loop_step)
  let ?c1 = "c[i := info1]"
  have rec: "uploadAllToGPU_loop env (i + 1) (?c1, heap1, gpu1) = Inr (c', heap', gpu')"
    using Suc.prems(1) lt ent by (simp add: uploadAllToGPU_loop_step)
  have empty: "callbackContexts (c ! i) = Quad None None None None"
    using Suc.prems(2) lt by simp
  from uploadEntry_effect [OF ent empty] obtain xs0 where
    e1: "sameButContexts (c ! i) info1"
    and e2: "heap1 = heap @ xs0" "list_all freshCell xs0"
            "planeSlots env info1 = map Some [length heap ..< length heap + length xs0]"
    and e3: "gpuAccepts gpu1 = gpuAccepts gpu"
    and e4: "\<not> isYUV (c ! i) \<longrightarrow>
           callbackContexts info1 = Quad (Some (length heap)) None None None
         \<and> heap1 = heap @ [Some \<lparr>fBackendTexture =
               fst (createTestingOnlyBackendTexture (requestOfBitmap (normalBitmap (c ! i))) gpu),
               fRefCnt = 1\<rparr>]"
    by blast
  have d: "d = length ?c1 - (i + 1)" using Suc.hyps(2) by simp
  have pre: "\<forall>k. i + 1 \<le> k \<and> k < length ?c1 \<longrightarrow>
               callbackContexts (?c1 ! k) = Quad None None None None"
    using Suc.prems(2) by simp
  from Suc.hyps(1) [OF d rec pre] obtain xs1 where
    h1: "length c' = length ?c1"
    and h2: "\<forall>k<length ?c1. sameButContexts (?c1 ! k) (c' ! k)"
    and h3: "\<forall>k<i + 1. c' ! k = ?c1 ! k"
    and h4: "heap' = heap1 @ xs1" "list_all freshCell xs1"
            "concat (map (planeSlots env) (drop (i + 1) c')) =
               map Some [length heap1 ..< length heap1 + length xs1]"
    and h5: "gpuAccepts gpu' = gpuAccepts gpu1"
    and h6: "\<forall>k. i + 1 \<le> k \<and> k < length ?c1 \<and> \<not> isYUV (?c1 ! k) \<longrightarrow>
           (\<exists>a g. callbackContexts (c' ! k) = Quad (Some a) None None None
                \<and> length heap1 \<le> a \<and> a < length heap'
                \<and> heap' ! a = Some \<lparr>fBackendTexture =
                      fst (createTestingOnlyBackendTexture (requestOfBitmap (normalBitmap (?c1 ! k))) g),
                      fRefCnt = 1\<rparr>
                \<and> gpuAccepts g = gpuAccepts gpu1)"
    by blast
  have c'i: "c' ! i = info1" using h3 lt by simp
  have g1: "length c' = length c" using h1 by simp
  have g2: "\<forall>k<length c. sameButContexts (c ! k) (c' ! k)"
  proof (intro allI impI)
    fix k assume k: "k < length c"
    show "sameButContexts (c ! k) (c' ! k)"
    proof (cases "k = i")
      case True
      then show ?thesis using e1 c'i by simp
    next
      case False
      then show ?thesis using h2 k by auto
    qed
  qed
  have g3: "\<forall>k<i. c' ! k = c ! k" using h3 by simp
  have dr: "drop i c' = c' ! i # drop (i + 1) c'"
    using lt g1 by (simp add: Cons_nth_drop_Suc)
  have "concat (map (planeSlots env) (drop i c')) =
          map Some [length heap ..< length heap + length xs0]
        @ map Some [length heap + length xs0 ..< length heap + length xs0 + length xs1]"
    using dr c'i e2 h4(3) by simp
  also have "\<dots> = map Some [length heap ..< length heap + length (xs0 @ xs1)]"
    using upt_add_eq_append [of "length heap" "length heap + length xs0" "length xs1"]
    by (simp add: add.assoc)
  finally have g4: "\<exists>xs. heap' = heap @ xs \<and> list_all freshCell xs
            \<and> concat (map (planeSlots env) (drop i c')) = map Some [length heap ..< length heap + length xs]"
    using e2 h4 by (intro exI [of _ "xs0 @ xs1"]) simp
  have g5: "gpuAccepts gpu' = gpuAccepts gpu" using h5 e3 by simp
  have g6: "\<forall>k. i \<le> k \<and> k < length c \<and> \<not> isYUV (c ! k) \<longrightarrow>
           (\<exists>a g. callbackContexts (c' ! k) = Quad (Some a) None None None
                \<and> length heap \<le> a \<and> a < length heap'
                \<and> heap' ! a = Some \<lparr>fBackendTexture =
                      fst (createTestingOnlyBackendTexture (requestOfBitmap (normalBitmap (c ! k))) g),
                      fRefCnt = 1\<rparr>
                \<and> gpuAccepts g = gpuAccepts gpu)"
  proof (intro allI impI)
    fix k assume k: "i \<le> k \<and> k < length c \<and> \<not> isYUV (c ! k)"
    show "\<exists>a g. callbackContexts (c' ! k) = Quad (Some a) None None None
                \<and> length heap \<le> a \<and> a < length heap'
                \<and> heap' ! a = Some \<lparr>fBackendTexture =
                      fst (createTestingOnlyBackendTexture (requestOfBitmap (normalBitmap (c ! k))) g),
                      fRefCnt = 1\<rparr>
                \<and> gpuAccepts g = gpuAccepts gpu"
    proof (cases "k = i")
      case True
      then have ny: "\<not> isYUV (c ! i)" using k by simp
      have "callbackContexts (c' ! i) = Quad (Some (length heap)) None None None"
        using e4 ny c'i by simp
      moreover have "heap' ! length heap = Some \<lparr>fBackendTexture =
               fst (createTestingOnlyBackendTexture (requestOfBitmap (normalBitmap (c ! i))) gpu),
               fRefCnt = 1\<rparr>"
        using e4 ny h4(1) by (simp add: nth_append)
      moreover have "length heap < length heap'" using e4 ny h4(1) by simp
      ultimately show ?thesis using True by blast
    next
      case False
      then have k1: "i + 1 \<le> k \<and> k < length ?c1 \<and> \<not> isYUV (?c1 ! k)" using k by simp
      from h6 k1 obtain a g where
        "callbackContexts (c' ! k) = Quad (Some a) None None None"
        "length heap1 \<le> a" "a < length heap'"
        "heap' ! a = Some \<lparr>fBackendTexture =
              fst (createTestingOnlyBackendTexture (requestOfBitmap (normalBitmap (?c1 ! k))) g),
              fRefCnt = 1\<rparr>"
        "gpuAccepts g = gpuAccepts gpu1" by blast
      then show ?thesis using False e2(1) e3
        by (intro exI [of _ a] exI [of _ g]) simp
    qed
  qed
  show ?case using g1 g2 g3 g4 g5 g6 by blast
qed

subsection \<open>Reinflation\<close>

lemma sameTextures_refl: "sameTextures h h"
  by (simp add: sameTextures_def)

lemma sameTextures_trans: "sameTextures a b \<Longrightarrow> sameTextures b c \<Longrightarrow> sameTextures a c"
  by (simp add: sameTextures_def)

lemma heapGet_ref:
  "heapGet (ref a heap) b =
     (if a = b then map_option (\<lambda>c. c\<lparr>fRefCnt := fRefCnt c + 1\<rparr>) (heapGet heap b)
      else heapGet heap b)"
  by (auto simp: ref_def heapGet_def split: option.splits)

lemma length_ref: "length (ref a heap) = length heap"
  by (simp add: ref_def split: option.splits)

lemma sameTextures_ref: "sameTextures heap (ref a heap)"
  by (auto simp: sameTextures_def textureOf_def heapGet_ref length_ref option.map_comp o_def
           intro!: option.map_cong)

lemma refCntOf_ref:
  "heapGet heap a \<noteq> None \<Longrightarrow> refCntOf (ref a heap) b = refCntOf heap b + (if a = b then 1 else 0)"
  by (auto simp: refCntOf_def heapGet_ref split: option.splits)

lemma backendTexture_textureOf:
  "backendTexture heap e i =
     (if 4 \<le> i then Inl (UndefinedBehaviour ''fCallbackContexts[index]'')
      else case qget (callbackContexts e) i of
        None \<Rightarrow> Inl (UndefinedBehaviour ''fCallbackContexts[index]->backendTexture()'')
      | Some a \<Rightarrow>
          (case textureOf heap a of
             None \<Rightarrow> Inl (UndefinedBehaviour ''fCallbackContexts[index]->backendTexture()'')
           | Some t \<Rightarrow> Inr t))"
  by (simp add: backendTexture_def textureOf_def kMaxCount_def split: option.splits)

lemma backendTexture_sameTextures:
  "sameTextures heap heap' \<Longrightarrow> backendTexture heap' e i = backendTexture heap e i"
  by (simp add: backendTexture_textureOf sameTextures_def cong: option.case_cong)

lemma mintedSlots_sameTextures:
  "sameTextures heap heap' \<Longrightarrow> mintedSlots env helper heap' p = mintedSlots env helper heap p"
  by (simp add: mintedSlots_def backendTexture_sameTextures cong: sum.case_cong)

lemma backendTexture_Inr:
  assumes "backendTexture heap e i = Inr t"
  shows "i < 4 \<and> (\<exists>a. qget (callbackContexts e) i = Some a \<and> heapGet heap a \<noteq> None)"
  using assms
  by (auto simp: backendTexture_def kMaxCount_def split: if_splits option.splits)

text \<open>The plane loop of the YUV branch.\<close>

lemma yuvaPlanes_loop_done:
  "\<not> int i < n \<Longrightarrow> yuvaPlanes_loop e n i st = Inr st"
  by (subst yuvaPlanes_loop.simps) simp

lemma yuvaPlanes_loop_step:
  "int i < n \<Longrightarrow>
   yuvaPlanes_loop e n i (arr, heap) =
     (case backendTexture heap e i of
        Inl err \<Rightarrow> Inl err
      | Inr backendTex \<Rightarrow>
          yuvaPlanes_loop e n (i + 1)
            (arr\<lparr>backendFormats := qset (backendFormats arr) i (createFormatFromBackendTexture backendTex),
                 contexts := qset (contexts arr) i (fst (refCallbackContext_release heap e i)),
                 sizes := qset (sizes arr) i
                            (iiWidth (pmInfo (qget (yuvPixmaps e) i)),
                             iiHeight (pmInfo (qget (yuvPixmaps e) i)))\<rparr>,
             snd (refCallbackContext_release heap e i)))"
  by (subst yuvaPlanes_loop.simps) (simp split: sum.splits prod.splits)

lemma yuvaPlanes_loop_effect:
  assumes "yuvaPlanes_loop e n i (arr, heap) = Inr (arr', heap')"
  shows "sameTextures heap heap'
     \<and> (\<forall>a. refCntOf heap' a =
              refCntOf heap a + count_list (map (qget (callbackContexts e)) [i ..< nat n]) (Some a))
     \<and> (\<forall>m<4. qget (contexts arr') m =
                 (if i \<le> m \<and> int m < n then qget (callbackContexts e) m else qget (contexts arr) m))
     \<and> (int i < n \<longrightarrow> n \<le> 4)
     \<and> (\<forall>m. i \<le> m \<and> int m < n \<longrightarrow> qget (callbackContexts e) m \<noteq> None)"
  using assms
proof (induction "nat n - i" arbitrary: i arr heap)
  case 0
  then have "\<not> int i < n" by linarith
  then show ?case using "0.prems" by (auto simp: yuvaPlanes_loop_done sameTextures_refl)
next
  case (Suc d)
  then have lt: "int i < n" by linarith
  obtain tex where tex: "backendTexture heap e i = Inr tex"
    using Suc.prems lt
    by (cases "backendTexture heap e i") (simp_all add: yuvaPlanes_loop_step)
  from backendTexture_Inr [OF tex] obtain a where
    i4: "i < 4" and slot: "qget (callbackContexts e) i = Some a" and live: "heapGet heap a \<noteq> None"
    by blast
  have rel: "refCallbackContext_release heap e i = (Some a, ref a heap)"
    using slot by (simp add: refCallbackContext_release_def)
  let ?arr1 = "arr\<lparr>backendFormats := qset (backendFormats arr) i (createFormatFromBackendTexture tex),
                    contexts := qset (contexts arr) i (Some a),
                    sizes := qset (sizes arr) i
                            (iiWidth (pmInfo (qget (yuvPixmaps e) i)),
                             iiHeight (pmInfo (qget (yuvPixmaps e) i)))\<rparr>"
  have rec: "yuvaPlanes_loop e n (i + 1) (?arr1, ref a heap) = Inr (arr', heap')"
    using Suc.prems lt tex rel by (simp add: yuvaPlanes_loop_step)
  have d: "d = nat n - (i + 1)" using Suc.hyps(2) by simp
  from Suc.hyps(1) [OF d rec]
  have ih: "sameTextures (ref a heap) heap'"
    "\<forall>b. refCntOf heap' b =
              refCntOf (ref a heap) b + count_list (map (qget (callbackContexts e)) [i + 1 ..< nat n]) (Some b)"
    "\<forall>m<4. qget (contexts arr') m =
                 (if i + 1 \<le> m \<and> int m < n then qget (callbackContexts e) m else qget (contexts ?arr1) m)"
    "int (i + 1) < n \<longrightarrow> n \<le> 4"
    "\<forall>m. i + 1 \<le> m \<and> int m < n \<longrightarrow> qget (callbackContexts e) m \<noteq> None"
    by blast+
  have c1: "sameTextures heap heap'"
    using sameTextures_trans [OF sameTextures_ref ih(1)] .
  have upt: "[i ..< nat n] = i # [i + 1 ..< nat n]"
    using lt by (simp add: upt_conv_Cons)
  have c2: "\<forall>b. refCntOf heap' b =
              refCntOf heap b + count_list (map (qget (callbackContexts e)) [i ..< nat n]) (Some b)"
    using ih(2) slot by (auto simp: upt refCntOf_ref [OF live])
  have c3: "\<forall>m<4. qget (contexts arr') m =
                 (if i \<le> m \<and> int m < n then qget (callbackContexts e) m else qget (contexts arr) m)"
  proof (intro allI impI)
    fix m :: nat assume m4: "m < 4"
    show "qget (contexts arr') m =
                 (if i \<le> m \<and> int m < n then qget (callbackContexts e) m else qget (contexts arr) m)"
    proof (cases "m = i")
      case True
      then show ?thesis using ih(3) m4 i4 lt slot by (simp add: qget_qset)
    next
      case False
      then show ?thesis using ih(3) m4 i4 by (auto simp: qget_qset)
    qed
  qed
  have c4: "n \<le> 4" using ih(4) i4 by linarith
  have c5: "\<forall>m. i \<le> m \<and> int m < n \<longrightarrow> qget (callbackContexts e) m \<noteq> None"
  proof (intro allI impI)
    fix m assume m: "i \<le> m \<and> int m < n"
    show "qget (callbackContexts e) m \<noteq> None"
      using ih(5) m slot by (cases "m = i") auto
  qed
  show ?case using c1 c2 c3 c4 c5 by blast
qed

lemma PromiseImageCreator_prefix:
  assumes ok: "PromiseImageCreator env helper p (ctx, heap) = Inr res"
  shows "\<not> SkASSERT_fails env (rawLength p = 4) \<and> 4 \<le> rawLength p
       \<and> isValidID helper (rawIndex p)
       \<and> (\<exists>tex0. backendTexture heap (helper ! nat (rawIndex p)) 0 = Inr tex0)"
proof -
  have a1: "\<not> SkASSERT_fails env (rawLength p = 4)"
  proof
    assume "SkASSERT_fails env (rawLength p = 4)"
    then show False using ok by (simp add: PromiseImageCreator_def)
  qed
  have a2: "\<not> rawLength p < 4"
  proof
    assume "rawLength p < 4"
    then show False using ok a1 by (simp add: PromiseImageCreator_def)
  qed
  have a3: "\<not> SkASSERT_fails env (isValidID helper (rawIndex p))"
  proof
    assume "SkASSERT_fails env (isValidID helper (rawIndex p))"
    then show False using ok a1 a2 by (simp add: PromiseImageCreator_def)
  qed
  have a4: "isValidID helper (rawIndex p)"
  proof (rule ccontr)
    assume "\<not> isValidID helper (rawIndex p)"
    then have "getInfo helper (rawIndex p) = Inl (UndefinedBehaviour ''fImageInfo[index]'')"
      by (simp add: getInfo_def isValidID_def)
    then show False using ok a1 a2 a3 by (simp add: PromiseImageCreator_def)
  qed
  then have gi: "getInfo helper (rawIndex p) = Inr (helper ! nat (rawIndex p))"
    by (simp add: getInfo_def isValidID_def)
  have a5: "\<exists>tex0. backendTexture heap (helper ! nat (rawIndex p)) 0 = Inr tex0"
  proof (cases "backendTexture heap (helper ! nat (rawIndex p)) 0")
    case (Inl e)
    then show ?thesis using ok a1 a2 a3 gi by (simp add: PromiseImageCreator_def)
  next
    case (Inr t)
    then show ?thesis by simp
  qed
  show ?thesis using a1 a2 a4 a5 by simp
qed

lemma PromiseImageCreator_fallback:
  assumes "\<not> SkASSERT_fails env (rawLength p = 4)" "4 \<le> rawLength p"
    "isValidID helper (rawIndex p)"
    "backendTexture heap (helper ! nat (rawIndex p)) 0 = Inr tex0" "\<not> isValid tex0"
  shows "PromiseImageCreator env helper p (ctx, heap) =
     (if SkASSERT_fails env (\<not> isYUV (helper ! nat (rawIndex p)))
      then Inl (AssertFailed ''!curImage.isYUV()'')
      else if SkASSERT_fails env (bmImmutable (normalBitmap (helper ! nat (rawIndex p))))
      then Inl (AssertFailed ''curImage.normalBitmap().isImmutable()'')
      else Inr (MakeFromBitmap (normalBitmap (helper ! nat (rawIndex p))), ctx, heap))"
proof -
  have gi: "getInfo helper (rawIndex p) = Inr (helper ! nat (rawIndex p))"
    using assms(3) by (simp add: getInfo_def isValidID_def)
  have v: "\<not> SkASSERT_fails env (isValidID helper (rawIndex p))"
    using assms(3) by (simp add: SkASSERT_fails_def)
  show ?thesis
    using assms(1,2,4,5) gi v by (simp add: PromiseImageCreator_def)
qed

lemma PromiseImageCreator_single:
  assumes "\<not> SkASSERT_fails env (rawLength p = 4)" "4 \<le> rawLength p"
    "isValidID helper (rawIndex p)"
    "backendTexture heap (helper ! nat (rawIndex p)) 0 = Inr tex0" "isValid tex0"
    "\<not> isYUV (helper ! nat (rawIndex p))"
  shows "PromiseImageCreator env helper p (ctx, heap) =
     (if SkASSERT_fails env (index (helper ! nat (rawIndex p)) = rawIndex p)
      then Inl (AssertFailed ''curImage.index() == *indexPtr'')
      else Inr (Some (PromiseTexture (recorderID (fRecorder ctx)) (imagesMade (fRecorder ctx))
                        \<lparr>ptFormat = createFormatFromBackendTexture tex0,
                         ptWidth = overallWidth (helper ! nat (rawIndex p)),
                         ptHeight = overallHeight (helper ! nat (rawIndex p)),
                         ptMipMapped = kNo,
                         ptOrigin = kTopLeft_GrSurfaceOrigin,
                         ptColorType = overallColorType (helper ! nat (rawIndex p)),
                         ptAlphaType = overallAlphaType (helper ! nat (rawIndex p)),
                         ptColorSpace = refOverallColorSpace (helper ! nat (rawIndex p)),
                         ptContext = qget (callbackContexts (helper ! nat (rawIndex p))) 0\<rparr>),
                ctx\<lparr>fRecorder := (fRecorder ctx)\<lparr>imagesMade := imagesMade (fRecorder ctx) + 1\<rparr>,
                    fPromiseImages := fPromiseImages ctx @
                      [Some (PromiseTexture (recorderID (fRecorder ctx)) (imagesMade (fRecorder ctx))
                        \<lparr>ptFormat = createFormatFromBackendTexture tex0,
                         ptWidth = overallWidth (helper ! nat (rawIndex p)),
                         ptHeight = overallHeight (helper ! nat (rawIndex p)),
                         ptMipMapped = kNo,
                         ptOrigin = kTopLeft_GrSurfaceOrigin,
                         ptColorType = overallColorType (helper ! nat (rawIndex p)),
                         ptAlphaType = overallAlphaType (helper ! nat (rawIndex p)),
                         ptColorSpace = refOverallColorSpace (helper ! nat (rawIndex p)),
                         ptContext = qget (callbackContexts (helper ! nat (rawIndex p))) 0\<rparr>)]\<rparr>,
                snd (refCallbackContext_release heap (helper ! nat (rawIndex p)) 0)))"
proof -
  have gi: "getInfo helper (rawIndex p) = Inr (helper ! nat (rawIndex p))"
    using assms(3) by (simp add: getInfo_def isValidID_def)
  have v: "\<not> SkASSERT_fails env (isValidID helper (rawIndex p))"
    using assms(3) by (simp add: SkASSERT_fails_def)
  have fstrel: "fst (refCallbackContext_release heap (helper ! nat (rawIndex p)) 0) =
                qget (callbackContexts (helper ! nat (rawIndex p))) 0"
    by (simp add: refCallbackContext_release_def split: option.splits)
  show ?thesis
    using assms(1,2,4,5,6) gi v fstrel
    by (simp add: PromiseImageCreator_def makePromiseTexture_def SkASSERT_fails_def
                  case_prod_beta)
qed

lemma PromiseImageCreator_yuv:
  assumes ok: "PromiseImageCreator env helper p (ctx, heap) = Inr (img, ctx', heap')"
    and tex: "backendTexture heap (helper ! nat (rawIndex p)) 0 = Inr tex0" "isValid tex0"
    and yuv: "isYUV (helper ! nat (rawIndex p))"
  shows "\<exists>arrays args.
           yuvaPlanes_loop (helper ! nat (rawIndex p))
              (snd (AreValidIndices env (yuvaIndices (helper ! nat (rawIndex p))))) 0
              (\<lparr>backendFormats = Quad InvalidFormat InvalidFormat InvalidFormat InvalidFormat,
                contexts = Quad None None None None,
                sizes = Quad (0, 0) (0, 0) (0, 0) (0, 0)\<rparr>, heap) = Inr (arrays, heap')
         \<and> 0 \<le> snd (AreValidIndices env (yuvaIndices (helper ! nat (rawIndex p))))
         \<and> img = Some (YUVAPromiseTexture (recorderID (fRecorder ctx)) (imagesMade (fRecorder ctx)) args)
         \<and> yaContexts args = contexts arrays
         \<and> yaWidth args = overallWidth (helper ! nat (rawIndex p))
         \<and> yaHeight args = overallHeight (helper ! nat (rawIndex p))
         \<and> ctx' = ctx\<lparr>fRecorder := (fRecorder ctx)\<lparr>imagesMade := imagesMade (fRecorder ctx) + 1\<rparr>,
                      fPromiseImages := fPromiseImages ctx @ [img]\<rparr>"
proof -
  let ?e = "helper ! nat (rawIndex p)"
  from PromiseImageCreator_prefix [OF ok]
  have pre: "\<not> SkASSERT_fails env (rawLength p = 4)" "4 \<le> rawLength p"
    "isValidID helper (rawIndex p)" by auto
  have gi: "getInfo helper (rawIndex p) = Inr ?e"
    using pre(3) by (simp add: getInfo_def isValidID_def)
  have v: "\<not> SkASSERT_fails env (isValidID helper (rawIndex p))"
    using pre(3) by (simp add: SkASSERT_fails_def)
  obtain valid n where avi: "AreValidIndices env (yuvaIndices ?e) = (valid, n)"
    by (cases "AreValidIndices env (yuvaIndices ?e)")
  let ?init = "\<lparr>backendFormats = Quad InvalidFormat InvalidFormat InvalidFormat InvalidFormat,
                contexts = Quad None None None None,
                sizes = Quad (0, 0) (0, 0) (0, 0) (0, 0)\<rparr>"
  have i1: "\<not> SkASSERT_fails env (index ?e = rawIndex p)"
  proof
    assume "SkASSERT_fails env (index ?e = rawIndex p)"
    then show False using ok pre(1,2) gi v tex by (simp add: PromiseImageCreator_def)
  qed
  have i2: "\<not> SkASSERT_fails env valid"
  proof
    assume "SkASSERT_fails env valid"
    then show False using ok pre(1,2) gi v tex yuv avi i1 by (simp add: PromiseImageCreator_def)
  qed
  obtain arrays heap1 where loop: "yuvaPlanes_loop ?e n 0 (?init, heap) = Inr (arrays, heap1)"
    using ok pre(1,2) gi v tex yuv avi i1 i2
    by (cases "yuvaPlanes_loop ?e n 0 (?init, heap)") (auto simp: PromiseImageCreator_def)
  have n0: "\<not> n < 0"
  proof
    assume "n < 0"
    then show False using ok pre(1,2) gi v tex yuv avi i1 i2 loop
      by (simp add: PromiseImageCreator_def)
  qed
  let ?args = "\<lparr>yaYUVColorSpace = yuvColorSpace ?e,
                 yaFormats = backendFormats arrays,
                 yaSizes = fold (\<lambda>i s. qset s i (0, 0)) [nat n ..< kMaxCount] (sizes arrays),
                 yaIndices = yuvaIndices ?e,
                 yaWidth = overallWidth ?e,
                 yaHeight = overallHeight ?e,
                 yaOrigin = kTopLeft_GrSurfaceOrigin,
                 yaColorSpace = refOverallColorSpace ?e,
                 yaContexts = contexts arrays\<rparr>"
  have res: "img = Some (YUVAPromiseTexture (recorderID (fRecorder ctx)) (imagesMade (fRecorder ctx)) ?args)
       \<and> heap' = heap1
       \<and> ctx' = ctx\<lparr>fRecorder := (fRecorder ctx)\<lparr>imagesMade := imagesMade (fRecorder ctx) + 1\<rparr>,
                      fPromiseImages := fPromiseImages ctx @ [img]\<rparr>"
    using ok pre(1,2) gi v tex yuv avi i1 i2 loop n0
    by (auto simp: PromiseImageCreator_def makeYUVAPromiseTexture_def SkASSERT_fails_def)
  show ?thesis
    using loop res avi n0
    by (intro exI [of _ arrays] exI [of _ ?args]) simp
qed

lemma PromiseImageCreator_effect:
  assumes ok: "PromiseImageCreator env helper p (ctx, heap) = Inr (img, ctx', heap')"
  shows "isValidID helper (rawIndex p)
     \<and> sameTextures heap heap'
     \<and> (\<forall>a. refCntOf heap' a = refCntOf heap a + count_list (mintedSlots env helper heap p) (Some a))
     \<and> recorderID (fRecorder ctx') = recorderID (fRecorder ctx)
     \<and> fPromiseImages ctx' = fPromiseImages ctx @ (if isPromiseImage img then [img] else [])
     \<and> (isPromiseImage img \<longleftrightarrow>
           (\<exists>t. backendTexture heap (helper ! nat (rawIndex p)) 0 = Inr t \<and> isValid t))
     \<and> (if isPromiseImage img
         then (\<exists>im. img = Some im
                 \<and> imageMintedBy im = Some (recorderID (fRecorder ctx), imagesMade (fRecorder ctx))
                 \<and> imagesMade (fRecorder ctx') = imagesMade (fRecorder ctx) + 1
                 \<and> set (imageContexts im) - {None} = set (planeSlots env (helper ! nat (rawIndex p)))
                 \<and> imageWidth im = overallWidth (helper ! nat (rawIndex p))
                 \<and> imageHeight im = overallHeight (helper ! nat (rawIndex p))
                 \<and> (isYUV (helper ! nat (rawIndex p)) \<or>
                      imageColorType env im = overallColorType (helper ! nat (rawIndex p))
                    \<and> imageAlphaType env im = overallAlphaType (helper ! nat (rawIndex p))))
         else img = MakeFromBitmap (normalBitmap (helper ! nat (rawIndex p)))
              \<and> ctx' = ctx \<and> heap' = heap)"
proof -
  let ?e = "helper ! nat (rawIndex p)"
  from PromiseImageCreator_prefix [OF ok] obtain tex0 where
    pre: "\<not> SkASSERT_fails env (rawLength p = 4)" "4 \<le> rawLength p"
      "isValidID helper (rawIndex p)"
    and tex: "backendTexture heap ?e 0 = Inr tex0" by auto
  have gi: "getInfo helper (rawIndex p) = Inr ?e"
    using pre(3) by (simp add: getInfo_def isValidID_def)
  from backendTexture_Inr [OF tex] obtain a where
    slot: "qget (callbackContexts ?e) 0 = Some a" and live: "heapGet heap a \<noteq> None" by blast
  show ?thesis
  proof (cases "isValid tex0")
    case False
    have ms: "mintedSlots env helper heap p = []"
      using gi tex False by (simp add: mintedSlots_def)
    have res: "img = MakeFromBitmap (normalBitmap ?e) \<and> ctx' = ctx \<and> heap' = heap"
      using ok PromiseImageCreator_fallback [OF pre tex False, of ctx]
      by (simp split: if_splits)
    have np: "\<not> isPromiseImage img"
      using res by (simp add: MakeFromBitmap_def split: option.splits)
    show ?thesis
      using pre(3) res np ms tex False by (simp add: sameTextures_refl)
  next
    case True
    have ms: "mintedSlots env helper heap p = planeSlots env ?e"
      using gi tex True by (simp add: mintedSlots_def)
    show ?thesis
    proof (cases "isYUV ?e")
      case ny: False
      have rel: "refCallbackContext_release heap ?e 0 = (Some a, ref a heap)"
        using slot by (simp add: refCallbackContext_release_def)
      let ?im = "PromiseTexture (recorderID (fRecorder ctx)) (imagesMade (fRecorder ctx))
                        \<lparr>ptFormat = createFormatFromBackendTexture tex0,
                         ptWidth = overallWidth ?e,
                         ptHeight = overallHeight ?e,
                         ptMipMapped = kNo,
                         ptOrigin = kTopLeft_GrSurfaceOrigin,
                         ptColorType = overallColorType ?e,
                         ptAlphaType = overallAlphaType ?e,
                         ptColorSpace = refOverallColorSpace ?e,
                         ptContext = qget (callbackContexts ?e) 0\<rparr>"
      have res: "img = Some ?im"
        "ctx' = ctx\<lparr>fRecorder := (fRecorder ctx)\<lparr>imagesMade := imagesMade (fRecorder ctx) + 1\<rparr>,
                    fPromiseImages := fPromiseImages ctx @ [Some ?im]\<rparr>"
        "heap' = ref a heap"
        using ok PromiseImageCreator_single [OF pre tex True ny, of ctx] rel
        by (auto split: if_splits)
      have ps: "planeSlots env ?e = [Some a]"
        using ny slot by (simp add: planeSlots_def)
      have rc: "\<forall>b. refCntOf heap' b = refCntOf heap b + count_list (mintedSlots env helper heap p) (Some b)"
        using res(3) ms ps by (auto simp: refCntOf_ref [OF live])
      have st: "sameTextures heap heap'" using res(3) by (simp add: sameTextures_ref)
      have pi: "isPromiseImage img" using res(1) by simp
      have body: "\<exists>im. img = Some im
                 \<and> imageMintedBy im = Some (recorderID (fRecorder ctx), imagesMade (fRecorder ctx))
                 \<and> imagesMade (fRecorder ctx') = imagesMade (fRecorder ctx) + 1
                 \<and> set (imageContexts im) - {None} = set (planeSlots env ?e)
                 \<and> imageWidth im = overallWidth ?e
                 \<and> imageHeight im = overallHeight ?e
                 \<and> (isYUV ?e \<or>
                      imageColorType env im = overallColorType ?e
                    \<and> imageAlphaType env im = overallAlphaType ?e)"
        using res(1,2) ps slot by (intro exI [of _ ?im]) simp
      have e3: "recorderID (fRecorder ctx') = recorderID (fRecorder ctx)" using res(2) by simp
      have e4: "fPromiseImages ctx' = fPromiseImages ctx @ [img]" using res(1,2) by simp
      show ?thesis
        using pre(3) st rc e3 e4 pi body tex True by simp
    next
      case yuv: True
      let ?n = "snd (AreValidIndices env (yuvaIndices ?e))"
      from PromiseImageCreator_yuv [OF ok tex True yuv] obtain arrays args where
        loop: "yuvaPlanes_loop ?e ?n 0
              (\<lparr>backendFormats = Quad InvalidFormat InvalidFormat InvalidFormat InvalidFormat,
                contexts = Quad None None None None,
                sizes = Quad (0, 0) (0, 0) (0, 0) (0, 0)\<rparr>, heap) = Inr (arrays, heap')"
        and n0: "0 \<le> ?n"
        and im: "img = Some (YUVAPromiseTexture (recorderID (fRecorder ctx)) (imagesMade (fRecorder ctx)) args)"
        and args: "yaContexts args = contexts arrays" "yaWidth args = overallWidth ?e"
                  "yaHeight args = overallHeight ?e"
        and c': "ctx' = ctx\<lparr>fRecorder := (fRecorder ctx)\<lparr>imagesMade := imagesMade (fRecorder ctx) + 1\<rparr>,
                      fPromiseImages := fPromiseImages ctx @ [img]\<rparr>"
        by blast
      from yuvaPlanes_loop_effect [OF loop]
      have eff: "sameTextures heap heap'"
        "\<forall>b. refCntOf heap' b =
              refCntOf heap b + count_list (map (qget (callbackContexts ?e)) [0 ..< nat ?n]) (Some b)"
        "\<forall>m<4. qget (contexts arrays) m =
                 (if int m < ?n then qget (callbackContexts ?e) m else None)"
        "0 < ?n \<longrightarrow> ?n \<le> 4"
        "\<forall>m. int m < ?n \<longrightarrow> qget (callbackContexts ?e) m \<noteq> None"
        by auto
      have n4: "nat ?n \<le> 4" using eff(4) by linarith
      have ps: "planeSlots env ?e = map (qget (callbackContexts ?e)) [0 ..< nat ?n]"
        using yuv by (simp add: planeSlots_def)
      have rc: "\<forall>b. refCntOf heap' b = refCntOf heap b + count_list (mintedSlots env helper heap p) (Some b)"
        using eff(2) ms ps by simp
      have cs: "set (map (qget (contexts arrays)) [0 ..< 4]) - {None} =
                set (map (qget (callbackContexts ?e)) [0 ..< nat ?n])"
      proof (intro set_eqI iffI)
        fix x assume "x \<in> set (map (qget (contexts arrays)) [0 ..< 4]) - {None}"
        then obtain m where m: "m < 4" "x = qget (contexts arrays) m" "x \<noteq> None" by auto
        then have "int m < ?n" using eff(3) by (auto split: if_splits)
        then show "x \<in> set (map (qget (callbackContexts ?e)) [0 ..< nat ?n])"
          using m eff(3) by auto
      next
        fix x assume "x \<in> set (map (qget (callbackContexts ?e)) [0 ..< nat ?n])"
        then obtain m where m: "m < nat ?n" "x = qget (callbackContexts ?e) m" by auto
        then have "m < 4" "int m < ?n" using n4 by auto
        then have "qget (contexts arrays) m = x" "x \<noteq> None" using eff(3,5) m by auto
        then show "x \<in> set (map (qget (contexts arrays)) [0 ..< 4]) - {None}"
          using \<open>m < 4\<close> by (metis Diff_iff atLeastLessThan_iff image_eqI le0 set_map set_upt singletonD)
      qed
      have pi: "isPromiseImage img" using im by simp
      have body: "\<exists>im. img = Some im
                 \<and> imageMintedBy im = Some (recorderID (fRecorder ctx), imagesMade (fRecorder ctx))
                 \<and> imagesMade (fRecorder ctx') = imagesMade (fRecorder ctx) + 1
                 \<and> set (imageContexts im) - {None} = set (planeSlots env ?e)
                 \<and> imageWidth im = overallWidth ?e
                 \<and> imageHeight im = overallHeight ?e
                 \<and> (isYUV ?e \<or>
                      imageColorType env im = overallColorType ?e
                    \<and> imageAlphaType env im = overallAlphaType ?e)"
        using im c' args cs ps yuv
        by (intro exI [of _ "YUVAPromiseTexture (recorderID (fRecorder ctx)) (imagesMade (fRecorder ctx)) args"])
           simp
      have e3: "recorderID (fRecorder ctx') = recorderID (fRecorder ctx)" using c' by simp
      have e4: "fPromiseImages ctx' = fPromiseImages ctx @ [img]" using c' by simp
      show ?thesis
        using pre(3) eff(1) rc e3 e4 pi body tex True by simp
    qed
  qed
qed

lemma textureValid_iff:
  "textureValid heap e \<longleftrightarrow> (\<exists>t. backendTexture heap e 0 = Inr t \<and> isValid t)"
  by (cases "backendTexture heap e 0") (simp_all add: textureValid_def)

lemma textureValid_sameTextures:
  "sameTextures heap heap' \<Longrightarrow> textureValid heap' e = textureValid heap e"
  by (simp add: textureValid_def backendTexture_sameTextures)

lemma resolvedAs_sameTextures:
  "sameTextures heap heap' \<Longrightarrow> resolvedAs env helper heap' rid p img = resolvedAs env helper heap rid p img"
  by (simp add: resolvedAs_def textureValid_sameTextures)

lemma resolvedAs_sameTextures_ext:
  "sameTextures heap heap' \<Longrightarrow> resolvedAs env helper heap' rid = resolvedAs env helper heap rid"
  by (intro ext) (rule resolvedAs_sameTextures)

lemma PromiseImageCreator_resolvedAs:
  assumes ok: "PromiseImageCreator env helper p (ctx, heap) = Inr (img, ctx', heap')"
  shows "resolvedAs env helper heap (recorderID (fRecorder ctx)) p img"
proof -
  note eff = PromiseImageCreator_effect [OF ok]
  show ?thesis
  proof (cases "isPromiseImage img")
    case True
    then show ?thesis
      using eff unfolding resolvedAs_def textureValid_iff by auto
  next
    case False
    then show ?thesis
      using eff unfolding resolvedAs_def textureValid_iff by auto
  qed
qed

lemma MakeFromData_effect:
  "MakeFromData env helper ts (ctx, heap) = Inr (imgs, ctx', heap') \<Longrightarrow>
     sameTextures heap heap'
   \<and> (\<forall>a. refCntOf heap' a =
            refCntOf heap a + count_list (concat (map (mintedSlots env helper heap) ts)) (Some a))
   \<and> recorderID (fRecorder ctx') = recorderID (fRecorder ctx)
   \<and> fPromiseImages ctx' = fPromiseImages ctx @ filter isPromiseImage imgs
   \<and> list_all2 (resolvedAs env helper heap (recorderID (fRecorder ctx))) ts imgs"
proof (induction ts arbitrary: ctx heap imgs)
  case Nil
  then show ?case by (simp add: sameTextures_refl)
next
  case (Cons p ts)
  obtain img ctx1 heap1 where
    first: "PromiseImageCreator env helper p (ctx, heap) = Inr (img, ctx1, heap1)"
    using Cons.prems by (cases "PromiseImageCreator env helper p (ctx, heap)") auto
  obtain imgs1 where
    rest: "MakeFromData env helper ts (ctx1, heap1) = Inr (imgs1, ctx', heap')"
    and imgs: "imgs = img # imgs1"
    using Cons.prems first
    by (cases "MakeFromData env helper ts (ctx1, heap1)") auto
  note eff = PromiseImageCreator_effect [OF first]
  have st1: "sameTextures heap heap1" using eff by simp
  from Cons.IH [OF rest]
  have ih: "sameTextures heap1 heap'"
    "\<forall>a. refCntOf heap' a =
            refCntOf heap1 a + count_list (concat (map (mintedSlots env helper heap1) ts)) (Some a)"
    "recorderID (fRecorder ctx') = recorderID (fRecorder ctx1)"
    "fPromiseImages ctx' = fPromiseImages ctx1 @ filter isPromiseImage imgs1"
    "list_all2 (resolvedAs env helper heap1 (recorderID (fRecorder ctx1))) ts imgs1"
    by blast+
  have ms: "map (mintedSlots env helper heap1) ts = map (mintedSlots env helper heap) ts"
    using mintedSlots_sameTextures [OF st1] by simp
  have r1: "sameTextures heap heap'" using sameTextures_trans [OF st1 ih(1)] .
  have r2: "\<forall>a. refCntOf heap' a =
            refCntOf heap a + count_list (concat (map (mintedSlots env helper heap) (p # ts))) (Some a)"
    using ih(2) eff ms by simp
  have r3: "recorderID (fRecorder ctx') = recorderID (fRecorder ctx)" using ih(3) eff by simp
  have r4: "fPromiseImages ctx' = fPromiseImages ctx @ filter isPromiseImage imgs"
    using ih(4) eff imgs by simp
  have "list_all2 (resolvedAs env helper heap (recorderID (fRecorder ctx))) ts imgs1"
    using ih(5) eff resolvedAs_sameTextures_ext [OF st1] by simp
  then have r5: "list_all2 (resolvedAs env helper heap (recorderID (fRecorder ctx))) (p # ts) imgs"
    using PromiseImageCreator_resolvedAs [OF first] imgs by simp
  show ?case using r1 r2 r3 r4 r5 by blast
qed

lemma reinflateSKP_effect:
  assumes "reinflateSKP env helper recorder ts promiseImages heap = Inr (picture, recorder', promiseImages', heap')"
  shows "sameTextures heap heap'
   \<and> (\<forall>a. refCntOf heap' a =
            refCntOf heap a + count_list (concat (map (mintedSlots env helper heap) ts)) (Some a))
   \<and> promiseImages' = promiseImages @ filter isPromiseImage picture
   \<and> list_all2 (resolvedAs env helper heap (recorderID recorder)) ts picture"
proof -
  obtain ctx' where
    m: "MakeFromData env helper ts (\<lparr>fRecorder = recorder, fPromiseImages = promiseImages\<rparr>, heap)
          = Inr (picture, ctx', heap')"
    and p: "promiseImages' = fPromiseImages ctx'"
    using assms
    by (cases "MakeFromData env helper ts (\<lparr>fRecorder = recorder, fPromiseImages = promiseImages\<rparr>, heap)")
       (auto simp: reinflateSKP_def)
  from MakeFromData_effect [OF m] p show ?thesis by simp
qed

lemma reinflateAll_effect:
  "reinflateAll env helper ts rs heap = Inr (results, heap') \<Longrightarrow>
     sameTextures heap heap'
   \<and> (\<forall>a. refCntOf heap' a =
            refCntOf heap a
            + length rs * count_list (concat (map (mintedSlots env helper heap) ts)) (Some a))
   \<and> list_all2 (\<lambda>r res. list_all2 (resolvedAs env helper heap (recorderID r)) ts (fst res)
                        \<and> snd res = filter isPromiseImage (fst res)) rs results"
proof (induction rs arbitrary: heap results)
  case Nil
  then show ?case by (simp add: sameTextures_refl)
next
  case (Cons r rs)
  obtain picture r' pis heap1 where
    first: "reinflateSKP env helper r ts [] heap = Inr (picture, r', pis, heap1)"
    using Cons.prems by (cases "reinflateSKP env helper r ts [] heap") auto
  obtain results1 where
    rest: "reinflateAll env helper ts rs heap1 = Inr (results1, heap')"
    and res: "results = (picture, pis) # results1"
    using Cons.prems first by (cases "reinflateAll env helper ts rs heap1") auto
  from reinflateSKP_effect [OF first]
  have e: "sameTextures heap heap1"
    "\<forall>a. refCntOf heap1 a =
            refCntOf heap a + count_list (concat (map (mintedSlots env helper heap) ts)) (Some a)"
    "pis = filter isPromiseImage picture"
    "list_all2 (resolvedAs env helper heap (recorderID r)) ts picture"
    by simp_all
  from Cons.IH [OF rest]
  have ih: "sameTextures heap1 heap'"
    "\<forall>a. refCntOf heap' a =
            refCntOf heap1 a
            + length rs * count_list (concat (map (mintedSlots env helper heap1) ts)) (Some a)"
    "list_all2 (\<lambda>r res. list_all2 (resolvedAs env helper heap1 (recorderID r)) ts (fst res)
                        \<and> snd res = filter isPromiseImage (fst res)) rs results1"
    by blast+
  have ms: "map (mintedSlots env helper heap1) ts = map (mintedSlots env helper heap) ts"
    using mintedSlots_sameTextures [OF e(1)] by simp
  have r1: "sameTextures heap heap'" using sameTextures_trans [OF e(1) ih(1)] .
  have r2: "\<forall>a. refCntOf heap' a =
            refCntOf heap a
            + length (r # rs) * count_list (concat (map (mintedSlots env helper heap) ts)) (Some a)"
    using ih(2) e(2) ms by simp
  have "list_all2 (\<lambda>r res. list_all2 (resolvedAs env helper heap (recorderID r)) ts (fst res)
                        \<and> snd res = filter isPromiseImage (fst res)) rs results1"
    using ih(3) resolvedAs_sameTextures_ext [OF e(1)] by simp
  then have r3: "list_all2 (\<lambda>r res. list_all2 (resolvedAs env helper heap (recorderID r)) ts (fst res)
                        \<and> snd res = filter isPromiseImage (fst res)) (r # rs) results"
    using e(3,4) res by simp
  show ?case using r1 r2 r3 by blast
qed

subsection \<open>Identities are kept\<close>

lemma fst_setCallbackContext:
  "fst (setCallbackContext plane a (info, heap, gpu)) =
     info\<lparr>callbackContexts := qset (callbackContexts info) plane (Some a)\<rparr>"
  by (simp add: setCallbackContext_def case_prod_beta Let_def)

lemma uploadYUV_loop_same:
  "uploadYUV_loop env n j st = Inr st' \<Longrightarrow> sameButContexts (fst st) (fst st')"
proof (induction "nat n - j" arbitrary: j st)
  case 0
  then have "\<not> int j < n" by linarith
  then show ?case using "0.prems" by (simp add: uploadYUV_loop_done sameButContexts_refl)
next
  case (Suc d)
  then have lt: "int j < n" by linarith
  obtain info heap gpu where st: "st = (info, heap, gpu)" by (cases st)
  let ?heap1 = "snd (newCallbackContext heap)"
  let ?a = "fst (newCallbackContext heap)"
  let ?cr = "createTestingOnlyBackendTexture (requestOfPixmap (qget (yuvPixmaps info) j)) gpu"
  let ?st1 = "setCallbackContext j ?a (info, setBackendTexture ?a (fst ?cr) ?heap1, snd ?cr)"
  have rec: "uploadYUV_loop env n (j + 1) ?st1 = Inr st'"
    using Suc.prems lt st
    by (subst (asm) uploadYUV_loop.simps) (simp add: case_prod_beta split: if_splits)
  have d: "d = nat n - (j + 1)" using Suc.hyps(2) by simp
  from Suc.hyps(1) [OF d rec] have "sameButContexts (fst ?st1) (fst st')" .
  then have "sameButContexts (info\<lparr>callbackContexts := qset (callbackContexts info) j (Some ?a)\<rparr>) (fst st')"
    by (simp add: fst_setCallbackContext)
  from sameButContexts_trans [OF sameButContexts_update this]
  show ?case using st by simp
qed

lemma uploadEntry_same:
  "uploadEntry env st = Inr st' \<Longrightarrow> sameButContexts (fst st) (fst st')"
proof -
  assume up: "uploadEntry env st = Inr st'"
  obtain info heap gpu where st: "st = (info, heap, gpu)" by (cases st)
  show ?thesis
  proof (cases "isYUV info")
    case True
    then have "uploadYUV_loop env (snd (AreValidIndices env (yuvaIndices info))) 0 st = Inr st'"
      using up st by (simp add: uploadEntry_def case_prod_beta split: if_splits)
    then show ?thesis by (rule uploadYUV_loop_same)
  next
    case False
    then have "fst st' = fst (setCallbackContext 0 (fst (newCallbackContext heap))
        (info, setBackendTexture (fst (newCallbackContext heap))
                 (fst (createTestingOnlyBackendTexture (requestOfBitmap (normalBitmap info)) gpu))
                 (snd (newCallbackContext heap)),
         snd (createTestingOnlyBackendTexture (requestOfBitmap (normalBitmap info)) gpu)))"
      using up st by (auto simp: uploadEntry_def case_prod_beta)
    then show ?thesis using st by (simp add: fst_setCallbackContext sameButContexts_update)
  qed
qed

lemma uploadAllToGPU_loop_same:
  "uploadAllToGPU_loop env i (c, heap, gpu) = Inr (c', heap', gpu') \<Longrightarrow>
   length c' = length c \<and> (\<forall>k<length c. sameButContexts (c ! k) (c' ! k))"
proof (induction "length c - i" arbitrary: i c heap gpu)
  case 0
  then have "\<not> i < length c" by simp
  then show ?case using "0.prems" by (simp add: uploadAllToGPU_loop_done sameButContexts_refl)
next
  case (Suc d)
  then have lt: "i < length c" by simp
  obtain info1 heap1 gpu1 where
    ent: "uploadEntry env (c ! i, heap, gpu) = Inr (info1, heap1, gpu1)"
    using Suc.prems(1) lt
    by (cases "uploadEntry env (c ! i, heap, gpu)") (auto simp: uploadAllToGPU_loop_step)
  have rec: "uploadAllToGPU_loop env (i + 1) (c[i := info1], heap1, gpu1) = Inr (c', heap', gpu')"
    using Suc.prems(1) lt ent by (simp add: uploadAllToGPU_loop_step)
  have d: "d = length (c[i := info1]) - (i + 1)" using Suc.hyps(2) by simp
  from Suc.hyps(1) [OF d rec]
  have ih: "length c' = length c" "\<forall>k<length c. sameButContexts (c[i := info1] ! k) (c' ! k)"
    by simp_all
  have e1: "sameButContexts (c ! i) info1" using uploadEntry_same [OF ent] by simp
  have "\<forall>k<length c. sameButContexts (c ! k) (c' ! k)"
  proof (intro allI impI)
    fix k assume k: "k < length c"
    show "sameButContexts (c ! k) (c' ! k)"
    proof (cases "k = i")
      case True
      then show ?thesis using ih(2) k e1 sameButContexts_trans by fastforce
    next
      case False
      then show ?thesis using ih(2) k by auto
    qed
  qed
  then show ?case using ih(1) by simp
qed

lemma uploadAllToGPU_same:
  assumes "uploadAllToGPU env (c, heap, gpu) = Inr (c', heap', gpu')"
  shows "length c' = length c" "\<forall>k<length c. sameButContexts (c ! k) (c' ! k)"
    "sameIdentities c c'" "map index c' = map index c"
proof -
  from uploadAllToGPU_loop_same [of env 0 c heap gpu c' heap' gpu'] assms
  show l: "length c' = length c" and s: "\<forall>k<length c. sameButContexts (c ! k) (c' ! k)"
    by (simp_all add: uploadAllToGPU_def)
  show "sameIdentities c c'"
    using l s sameButContexts_fields(1,2) by (simp add: sameIdentities_def)
  show "map index c' = map index c"
    using l s sameButContexts_fields(1) by (intro nth_equalityI) simp_all
qed

lemma deflateSKP_sameIdentities:
  "deflateSKP env c imgs = Inr (nodes, c') \<Longrightarrow> sameIdentities c c'"
  using deflateSKP_grows [of env c imgs nodes c'] sameIdentities_append by auto

lemma findImage_total:
  "indexInvariant c \<Longrightarrow> \<exists>r. findImage_loop env c img k = Inr r"
proof (induction env c img k rule: findImage_loop.induct)
  case (1 env c img i)
  show ?case
  proof (cases "int i < count c")
    case False
    then show ?thesis by (subst findImage_loop.simps) simp
  next
    case True
    then have lt: "i < length c" by (simp add: count_def)
    show ?thesis
    proof (cases "originalUniqueID (c ! i) = uniqueID img")
      case hit: True
      have "index (c ! i) = int i" using indexInvariant_nth [OF "1.prems" lt] .
      then show ?thesis
        using True hit lt
        by (subst findImage_loop.simps) (simp add: SkASSERT_fails_def isValidID_def count_def)
    next
      case miss: False
      from "1.IH" [OF True miss "1.prems"] obtain r where
        "findImage_loop env c img (i + 1) = Inr r" by blast
      then show ?thesis using True miss by (subst findImage_loop.simps) simp
    qed
  qed
qed

lemma distinct_concat_disjoint:
  "distinct (concat (map f xs)) \<Longrightarrow> i < j \<Longrightarrow> j < length xs \<Longrightarrow>
   set (f (xs ! i)) \<inter> set (f (xs ! j)) = {}"
proof (induction xs arbitrary: i j)
  case Nil
  then show ?case by simp
next
  case (Cons x xs)
  show ?case
  proof (cases i)
    case 0
    then obtain j' where j: "j = Suc j'" "j' < length xs"
      using Cons.prems by (cases j) auto
    have "set (f x) \<inter> set (concat (map f xs)) = {}" using Cons.prems(1) by simp
    moreover have "set (f (xs ! j')) \<subseteq> set (concat (map f xs))"
      using j(2) by (auto intro!: bexI [of _ "xs ! j'"])
    ultimately show ?thesis using 0 j by auto
  next
    case (Suc i')
    then obtain j' where j: "j = Suc j'" "i' < j'" "j' < length xs"
      using Cons.prems by (cases j) auto
    have "distinct (concat (map f xs))" using Cons.prems(1) by simp
    from Cons.IH [OF this j(2) j(3)] show ?thesis using Suc j by simp
  qed
qed

lemma count_concat_once:
  assumes "\<And>t. t \<in> set ts \<Longrightarrow> count_list (f t) x = (if key t = k then 1 else 0)"
  shows "count_list (concat (map f ts)) x = count_list (map key ts) k"
  using assms by (induction ts) auto

subsection \<open>Evaluating the sample scenario\<close>

lemmas eval_defs =
  sampleEnv_def sampleAreValidIndices_def imageA_def imageB_def planesB_def imageBad_def
  sampleGpu_def findImage_def findImage_loop.simps findOrDefineImage_def addImage_def
  colorTypes_loop.simps planes_loop.simps SkASSERT_fails_def isValidID_def count_def
  PromiseImageInfo_new_def SkImageInfo_Make_def setNormalBitmap_def setYUVData_def
  addYUVPlane_def emptyBitmap_def emptyPixmap_def emptyImageInfo_def isEmpty_def
  kMaxCount_def kIndexCount_def kA_Index_def Let_def capturedEntry_def




subsection \<open>From registration to reinflation\<close>

lemma uploadAllToGPU_effect:
  assumes up: "uploadAllToGPU env (c, heap, gpu) = Inr (c', heap', gpu')" and nu: "notUploaded c"
  shows "length c' = length c"
    and "\<exists>xs. heap' = heap @ xs \<and> list_all freshCell xs
            \<and> concat (map (planeSlots env) c') = map Some [length heap ..< length heap + length xs]"
    and "\<forall>k. k < length c \<and> \<not> isYUV (c ! k) \<longrightarrow>
           (\<exists>t. backendTexture heap' (c' ! k) 0 = Inr t
               \<and> isValid t = gpuAccepts gpu (requestOfBitmap (normalBitmap (c ! k))))"
proof -
  have pre: "\<forall>k. 0 \<le> k \<and> k < length c \<longrightarrow> callbackContexts (c ! k) = Quad None None None None"
    using nu by (simp add: notUploaded_def list_all_length)
  have loop: "uploadAllToGPU_loop env 0 (c, heap, gpu) = Inr (c', heap', gpu')"
    using up by (simp add: uploadAllToGPU_def)
  note eff = uploadAllToGPU_loop_effect [OF loop pre]
  show "length c' = length c" using eff by simp
  show "\<exists>xs. heap' = heap @ xs \<and> list_all freshCell xs
            \<and> concat (map (planeSlots env) c') = map Some [length heap ..< length heap + length xs]"
    using eff by simp
  show "\<forall>k. k < length c \<and> \<not> isYUV (c ! k) \<longrightarrow>
           (\<exists>t. backendTexture heap' (c' ! k) 0 = Inr t
               \<and> isValid t = gpuAccepts gpu (requestOfBitmap (normalBitmap (c ! k))))"
  proof (intro allI impI)
    fix k assume k: "k < length c \<and> \<not> isYUV (c ! k)"
    from eff k obtain a g where
      ag: "callbackContexts (c' ! k) = Quad (Some a) None None None" "a < length heap'"
        "heap' ! a = Some \<lparr>fBackendTexture =
              fst (createTestingOnlyBackendTexture (requestOfBitmap (normalBitmap (c ! k))) g),
              fRefCnt = 1\<rparr>"
        "gpuAccepts g = gpuAccepts gpu" by blast
    let ?t = "fst (createTestingOnlyBackendTexture (requestOfBitmap (normalBitmap (c ! k))) g)"
    have "backendTexture heap' (c' ! k) 0 = Inr ?t"
      using ag(1,2,3) by (simp add: backendTexture_def heapGet_def kMaxCount_def)
    moreover have "isValid ?t = gpuAccepts gpu (requestOfBitmap (normalBitmap (c ! k)))"
      using ag(4) by (simp add: isValid_create)
    ultimately show "\<exists>t. backendTexture heap' (c' ! k) 0 = Inr t
               \<and> isValid t = gpuAccepts gpu (requestOfBitmap (normalBitmap (c ! k)))"
      by blast
  qed
qed


lemma distinct_concat_nth:
  "distinct (concat (map f xs)) \<Longrightarrow> k < length xs \<Longrightarrow> distinct (f (xs ! k))"
proof (induction xs arbitrary: k)
  case Nil
  then show ?case by simp
next
  case (Cons x xs)
  then show ?case by (cases k) auto
qed

lemma distinct_count_list: "distinct xs \<Longrightarrow> x \<in> set xs \<Longrightarrow> count_list xs x = 1"
  by (induction xs) auto

lemmas eval_more =
  eval_defs imageBig_def smallTexturesOnly_def samplePicture_def
  uploadAllToGPU_def uploadAllToGPU_loop.simps uploadEntry_def uploadYUV_loop.simps
  newCallbackContext_def createTestingOnlyBackendTexture_def requestOfBitmap_def
  requestOfPixmap_def setBackendTexture_def heapGet_def setCallbackContext_def isYUV_def
  reinflateSKP_def PromiseImageCreator_def getInfo_def
  backendTexture_def refCallbackContext_release_def ref_def yuvaPlanes_loop.simps
  makePromiseTexture_def makeYUVAPromiseTexture_def MakeFromBitmap_def overallWidth_def
  overallHeight_def overallColorType_def overallAlphaType_def refOverallColorSpace_def
  upt_rec

text \<open>For a YUV entry the image does not depend on the colour type and the alpha type
  that were captured: they are not among the arguments of \<open>makeYUVAPromiseTexture\<close>.\<close>

lemma yuvaPlanes_loop_cong:
  assumes "callbackContexts e' = callbackContexts e" "yuvPixmaps e' = yuvPixmaps e"
  shows "yuvaPlanes_loop e' n i st = yuvaPlanes_loop e n i st"
proof (induction "nat n - i" arbitrary: i st)
  case 0
  then have "\<not> int i < n" by linarith
  then show ?case by (simp add: yuvaPlanes_loop_done)
next
  case (Suc d)
  then have lt: "int i < n" by linarith
  obtain arr heap where st: "st = (arr, heap)" by (cases st)
  have d: "d = nat n - (i + 1)" using Suc.hyps(2) by simp
  have bt: "backendTexture heap e' i = backendTexture heap e i"
    using assms by (simp add: backendTexture_def)
  have rl: "refCallbackContext_release heap e' i = refCallbackContext_release heap e i"
    using assms by (simp add: refCallbackContext_release_def)
  show ?case
    using lt st bt rl assms(2) Suc.hyps(1) [OF d]
    by (simp add: yuvaPlanes_loop_step cong: sum.case_cong)
qed

lemma yuva_type_not_passed:
  assumes k: "nat (rawIndex p) < length c" "0 \<le> rawIndex p" and yuv: "isYUV e"
  shows "PromiseImageCreator env
           (c[nat (rawIndex p) := e\<lparr>overallII := (overallII e)\<lparr>iiColorType := ct, iiAlphaType := at\<rparr>\<rparr>])
           p st
       = PromiseImageCreator env (c[nat (rawIndex p) := e]) p st"
proof -
  obtain ctx heap where st: "st = (ctx, heap)" by (cases st)
  let ?e' = "e\<lparr>overallII := (overallII e)\<lparr>iiColorType := ct, iiAlphaType := at\<rparr>\<rparr>"
  have loop: "yuvaPlanes_loop ?e' n i s = yuvaPlanes_loop e n i s" for n i s
    by (rule yuvaPlanes_loop_cong) simp_all
  have bt: "backendTexture heap ?e' 0 = backendTexture heap e 0"
    by (simp add: backendTexture_def)
  show ?thesis
    using k yuv
    by (simp add: st PromiseImageCreator_def getInfo_def isValidID_def count_def loop bt
          isYUV_def overallWidth_def overallHeight_def refOverallColorSpace_def
          cong: sum.case_cong if_cong)
qed

lemmas eval_all = eval_more sampleCatalog_def sampleStream_def sampleUploaded_def
  sampleRecorders_def sampleNodes_def sampleReinflated_def

lemmas eval_x = eval_all sampleContext_def sampleOne_def imageB2_def sampleUploaded2_def
  reinflateAll.simps MakeFromData.simps

lemma registration_semantics:
  assumes first: "findOrDefineImage env c img = Inr (i, c1)" and ok: "0 \<le> i"
  shows "i < count c1 \<and> originalUniqueID (c1 ! nat i) = uniqueID img
     \<and> (uniqueID img \<notin> originalUniqueID ` set c \<longrightarrow>
           i = count c \<and> length c1 = length c + 1 \<and> take (length c) c1 = c)
     \<and> (uniqueID img \<in> originalUniqueID ` set c \<longrightarrow> c1 = c)"
  using findOrDefineImage_cases [OF first]
proof
  assume a: "0 \<le> i \<and> c1 = c \<and> findImage env c img = Inr i"
  then have "findImage_loop env c img 0 = Inr i" by (simp add: findImage_def)
  from findImage_loop_result [OF this] ok
  have r: "i < int (length c)" "originalUniqueID (c ! nat i) = uniqueID img" by auto
  then have "uniqueID img \<in> originalUniqueID ` set c"
    using ok by (metis image_eqI nat_less_iff nth_mem)
  then show ?thesis using a r by (simp add: count_def)
next
  assume a: "findImage env c img = Inr (- 1) \<and> addImage env c img = Inr (i, c1)
          \<and> \<not> SkASSERT_fails env (isValidID c1 i)"
  then have "findImage_loop env c img 0 = Inr (- 1)" by (simp add: findImage_def)
  from findImage_loop_result [OF this]
  have none: "\<forall>j. j < length c \<longrightarrow> originalUniqueID (c ! j) \<noteq> uniqueID img" by auto
  then have notin: "uniqueID img \<notin> originalUniqueID ` set c"
    by (auto simp: in_set_conv_nth)
  from addImage_shape [of env c img i c1] a ok obtain e where
    e: "c1 = c @ [e]" "originalUniqueID e = uniqueID img" "i = count c" by auto
  show ?thesis using e notin by (simp add: count_def nth_append)
qed

subsection \<open>Registration that succeeds\<close>

text \<open>
  Where \<open>findOrDefineImage\<close> returns an index \<open>i\<close> that is not negative: every further
  registration of the same identity returns \<open>i\<close> again and leaves the catalogue as it is,
  so \<open>N\<close> registrations in a row return \<open>i\<close> \<open>N\<close> times; the catalogue has grown by
  exactly one entry, placed at the end, when the identity was not in it, and not at all when
  it was; the entry at \<open>i\<close> carries the identity; and \<open>i\<close> is still what lookup
  returns after any further registrations and after upload.
\<close>

lemma registration_same_index:
  assumes first: "findOrDefineImage env c img = Inr (i, c1)" and ok: "0 \<le> i"
  shows "registerTimes env img (Suc n) c = Inr (replicate (Suc n) i, c1)
     \<and> length c1 = length c + (if findImage env c img = Inr (- 1) then 1 else 0)
     \<and> (uniqueID img' = uniqueID img \<longrightarrow> findOrDefineImage env c1 img' = Inr (i, c1))
     \<and> (deflateSKP env c1 imgs = Inr (nodes, c2) \<longrightarrow>
           findOrDefineImage env c2 img = Inr (i, c2)
         \<and> (uploadAllToGPU env (c2, heap, gpu) = Inr (c3, heap', gpu') \<longrightarrow>
               findImage env c3 img = Inr i))
     \<and> i < count c1 \<and> originalUniqueID (c1 ! nat i) = uniqueID img
     \<and> (uniqueID img \<notin> originalUniqueID ` set c \<longrightarrow>
           i = count c \<and> length c1 = length c + 1 \<and> take (length c) c1 = c)
     \<and> (uniqueID img \<in> originalUniqueID ` set c \<longrightarrow> c1 = c)"
proof -
  have found: "findImage env c1 img = Inr i"
    using findOrDefineImage_found [OF first ok] .
  have p1: "registerTimes env img (Suc n) c = Inr (replicate (Suc n) i, c1)"
    using first registerTimes_same [OF found ok, of n] by simp
  have p2: "length c1 = length c + (if findImage env c img = Inr (- 1) then 1 else 0)"
    using findOrDefineImage_grows [OF first] by auto
  have p3: "uniqueID img' = uniqueID img \<longrightarrow> findOrDefineImage env c1 img' = Inr (i, c1)"
  proof
    assume same: "uniqueID img' = uniqueID img"
    have "findImage env c1 img' = Inr i"
      using findImage_stable [OF found ok sameIdentities_refl same] .
    then show "findOrDefineImage env c1 img' = Inr (i, c1)"
      using ok by (rule findOrDefineImage_hit)
  qed
  have p4: "deflateSKP env c1 imgs = Inr (nodes, c2) \<longrightarrow>
           findOrDefineImage env c2 img = Inr (i, c2)
         \<and> (uploadAllToGPU env (c2, heap, gpu) = Inr (c3, heap', gpu') \<longrightarrow>
               findImage env c3 img = Inr i)"
  proof
    assume d: "deflateSKP env c1 imgs = Inr (nodes, c2)"
    have f2: "findImage env c2 img = Inr i"
      using findImage_stable [OF found ok deflateSKP_sameIdentities [OF d] refl] .
    have "uploadAllToGPU env (c2, heap, gpu) = Inr (c3, heap', gpu') \<longrightarrow> findImage env c3 img = Inr i"
    proof
      assume u: "uploadAllToGPU env (c2, heap, gpu) = Inr (c3, heap', gpu')"
      show "findImage env c3 img = Inr i"
        using findImage_stable [OF f2 ok uploadAllToGPU_same(3) [OF u] refl] .
    qed
    then show "findOrDefineImage env c2 img = Inr (i, c2)
         \<and> (uploadAllToGPU env (c2, heap, gpu) = Inr (c3, heap', gpu') \<longrightarrow>
               findImage env c3 img = Inr i)"
      using findOrDefineImage_hit [OF f2 ok] by simp
  qed
  show ?thesis using p1 p2 p3 p4 registration_semantics [OF first ok] by blast
qed

lemma registration_same_index_sample:
  "findOrDefineImage (sampleEnv True) [] imageA = Inr (0, take 1 sampleCatalog)
   \<and> registerTimes (sampleEnv True) imageA (Suc 2) [] = Inr (replicate (Suc 2) 0, take 1 sampleCatalog)
   \<and> length (take 1 sampleCatalog) = length ([] :: DDLPromiseImageHelper) + 1
   \<and> findOrDefineImage (sampleEnv True) sampleCatalog imageA = Inr (0, sampleCatalog)
   \<and> findImage (sampleEnv True) (fst sampleUploaded) imageA = Inr 0"
proof -
  have h1: "findOrDefineImage (sampleEnv True) [] imageA = Inr (0, take 1 sampleCatalog)"
    by (simp add: eval_all)
  have h2: "(0::int) \<le> 0" by simp
  have h3: "deflateSKP (sampleEnv True) (take 1 sampleCatalog) [imageB, imageBig, imageA]
              = Inr (tl sampleNodes, sampleCatalog)"
    by (simp add: eval_all)
  have h4: "uploadAllToGPU (sampleEnv True) (sampleCatalog, [], sampleGpu smallTexturesOnly)
              = Inr (fst sampleUploaded, fst (snd sampleUploaded), snd (snd sampleUploaded))"
    by (simp add: eval_all)
  have new: "findImage (sampleEnv True) [] imageA = Inr (- 1)"
    by (simp add: eval_all)
  show ?thesis
    using registration_same_index [OF h1 h2, where n = 2 and img' = imageA
            and imgs = "[imageB, imageBig, imageA]" and nodes = "tl sampleNodes"
            and ?c2.0 = sampleCatalog and heap = "[]" and gpu = "sampleGpu smallTexturesOnly"
            and ?c3.0 = "fst sampleUploaded" and heap' = "fst (snd sampleUploaded)"
            and gpu' = "snd (snd sampleUploaded)"]
          h1 h3 h4 new
    by simp
qed

section \<open>Properties of the catalogue\<close>

text \<open>
  C1. An image without YUV planes whose pixels cannot be read (identity 9) is registered
  twice in the empty catalogue, assertions compiled out. The first call of
  \<open>findOrDefineImage\<close> returns \<open>-1\<close> and leaves the entry \<open>addImage\<close> appended before it
  read the pixels; the second call finds that entry and returns \<open>0\<close>. So the two calls
  do not return the same index, and the index returned for the identity has changed. With
  assertions compiled in the first call stops on \<open>SkASSERT(isValidID(newID))\<close> and
  returns no index at all.
\<close>

theorem unreadable_image_index_changes:
  "getPlanes imageBad = None \<and> makeRasterImage imageBad = ReadPixelsFails
   \<and> findOrDefineImage (sampleEnv False) [] imageBad = Inr (- 1, [capturedEntry [] imageBad])
   \<and> findOrDefineImage (sampleEnv False) [capturedEntry [] imageBad] imageBad
       = Inr (0, [capturedEntry [] imageBad])
   \<and> registerTimes (sampleEnv False) imageBad 2 [] = Inr ([- 1, 0], [capturedEntry [] imageBad])
   \<and> findOrDefineImage (sampleEnv True) [] imageBad = Inl (AssertFailed ''isValidID(newID)'')"
  by (simp add: eval_all numeral_2_eq_2)

text \<open>
  C2 (amended). For every reinflate call that returns, the output list afterwards is the
  list before followed by the promise images of the picture, in order: every image minted
  through the recorder is appended. An image is a promise image exactly when texture 0
  of its entry is valid; the image of the fallback branch, made from the captured bitmap,
  is returned for the picture and is not appended.
\<close>

theorem promise_images_appended:
  assumes "reinflateSKP env helper recorder ts promiseImages heap =
             Inr (picture, recorder', promiseImages', heap')"
  shows "promiseImages' = promiseImages @ filter isPromiseImage picture
     \<and> list_all2 (\<lambda>p img. isPromiseImage img = textureValid heap (helper ! nat (rawIndex p)))
         ts picture"
proof -
  from reinflateSKP_effect [OF assms]
  have app: "promiseImages' = promiseImages @ filter isPromiseImage picture"
    and res: "list_all2 (resolvedAs env helper heap (recorderID recorder)) ts picture"
    by simp_all
  have "list_all2 (\<lambda>p img. isPromiseImage img = textureValid heap (helper ! nat (rawIndex p)))
         ts picture"
    using res by (rule list_all2_mono) (auto simp: resolvedAs_def split: if_splits)
  then show ?thesis using app by simp
qed

theorem promise_images_appended_witness:
  "fst (snd (snd sampleOne)) = [] @ filter isPromiseImage (fst sampleOne)
   \<and> map isPromiseImage (fst sampleOne) = [True, True, False, True]
   \<and> map (\<lambda>p. textureValid (fst (snd sampleUploaded)) (fst sampleUploaded ! nat (rawIndex p)))
         sampleStream = [True, True, False, True]"
proof -
  have h: "reinflateSKP (sampleEnv True) (fst sampleUploaded) \<lparr>recorderID = 1, imagesMade = 0\<rparr>
              sampleStream [] (fst (snd sampleUploaded))
            = Inr (fst sampleOne, fst (snd sampleOne), fst (snd (snd sampleOne)), snd (snd (snd sampleOne)))"
    by (simp add: eval_x)
  have v: "map isPromiseImage (fst sampleOne) = [True, True, False, True]"
    by (simp add: eval_x)
  have t: "map (\<lambda>p. textureValid (fst (snd sampleUploaded)) (fst sampleUploaded ! nat (rawIndex p)))
         sampleStream = [True, True, False, True]"
    by (simp add: eval_x textureValid_def)
  show ?thesis using promise_images_appended [OF h] v t by simp
qed

theorem promise_images_appended_counterexample:
  "reinflateSKP (sampleEnv True) (fst sampleUploaded) \<lparr>recorderID = 1, imagesMade = 0\<rparr>
     [\<lparr>rawIndex = 2, rawLength = 4\<rparr>] [] (fst (snd sampleUploaded))
   = Inr ([Some (RasterImage (capturedBitmap (sampleEnv True) imageBig [5, 6, 7, 8]))],
          \<lparr>recorderID = 1, imagesMade = 0\<rparr>, [], fst (snd sampleUploaded))"
  by (simp add: eval_x capturedBitmap_def)

text \<open>
  C3. For an image without YUV planes whose pixels cannot be read, and whose identity is
  not yet in the catalogue: \<open>addImage\<close> returns \<open>-1\<close>, and the entry it appended before
  reading the pixels stays in the catalogue, which is one entry longer; a later lookup of
  the identity finds that entry. \<open>findOrDefineImage\<close> hands the \<open>-1\<close> on where
  assertions are compiled out, and stops on \<open>SkASSERT(isValidID(newID))\<close> where they are
  compiled in. So the catalogue is not what it would be had the registration never been
  attempted.
\<close>

theorem failed_read_keeps_entry:
  assumes "getPlanes img = None" and "makeRasterImage img = ReadPixelsFails"
    and new: "findImage env c img = Inr (- 1)"
  shows "addImage env c img = Inr (- 1, c @ [capturedEntry c img])
     \<and> findOrDefineImage env c img =
         (if SK_DEBUG env then Inl (AssertFailed ''isValidID(newID)'')
          else Inr (- 1, c @ [capturedEntry c img]))
     \<and> length (c @ [capturedEntry c img]) = length c + 1
     \<and> findImage env (c @ [capturedEntry c img]) img = Inr (count c)"
proof -
  have add: "addImage env c img = Inr (- 1, c @ [capturedEntry c img])"
    using assms(1,2) by (simp add: addImage_raster)
  have fod: "findOrDefineImage env c img =
         (if SK_DEBUG env then Inl (AssertFailed ''isValidID(newID)'')
          else Inr (- 1, c @ [capturedEntry c img]))"
    using new add by (simp add: findOrDefineImage_def SkASSERT_fails_def isValidID_def)
  have "findImage env (c @ [capturedEntry c img]) img = Inr (count c)"
    using findImage_after_add [OF new add] .
  then show ?thesis using add fod by simp
qed

theorem failed_read_keeps_entry_witness:
  "addImage (sampleEnv False) [] imageBad = Inr (- 1, [capturedEntry [] imageBad])
   \<and> findOrDefineImage (sampleEnv False) [] imageBad = Inr (- 1, [capturedEntry [] imageBad])
   \<and> findOrDefineImage (sampleEnv True) [] imageBad = Inl (AssertFailed ''isValidID(newID)'')
   \<and> findImage (sampleEnv False) [] imageBad = Inr (- 1)
   \<and> findImage (sampleEnv False) [capturedEntry [] imageBad] imageBad = Inr 0
   \<and> length [capturedEntry [] imageBad] = 1"
proof -
  have p: "getPlanes imageBad = None" "makeRasterImage imageBad = ReadPixelsFails"
    by (simp_all add: imageBad_def)
  have n1: "findImage (sampleEnv False) [] imageBad = Inr (- 1)" by (simp add: eval_all)
  have n2: "findImage (sampleEnv True) [] imageBad = Inr (- 1)" by (simp add: eval_all)
  show ?thesis
    using failed_read_keeps_entry [OF p n1] failed_read_keeps_entry [OF p n2] n1
    by (simp add: sampleEnv_def count_def)
qed



text \<open>
  C5 (amended). Let a catalogue that has not been uploaded be uploaded, let entry \<open>k\<close>
  have a valid texture 0 and let \<open>a\<close> be the callback context of one of its planes. The
  context has one reference after upload. When the same stream is reinflated once for each
  of \<open>M\<close> recorders, the count of \<open>a\<close> goes up by one for every promise image minted for
  the entry, that is, by \<open>M\<close> times the number of nodes of the stream that hold the token
  \<open>k\<close>: by exactly \<open>M\<close> when there is one such node. At such a node every one of the
  \<open>M\<close> pictures holds a promise image minted by its own recorder, which is in that
  call's output list and refers to exactly the contexts of the planes of entry \<open>k\<close>; the
  images of recorders with different identities are different.
\<close>

theorem shared_contexts_counted:
  assumes nu: "notUploaded c" and up: "uploadAllToGPU env (c, heap, gpu) = Inr (c', heap', gpu')"
    and k: "k < length c'" and tv: "textureValid heap' (c' ! k)"
    and a: "Some a \<in> set (planeSlots env (c' ! k))"
    and run: "reinflateAll env c' ts rs heap' = Inr (results, heap'')"
  shows "refCntOf heap' a = 1
     \<and> refCntOf heap'' a = refCntOf heap' a + length rs * count_list (map rawIndex ts) (int k)
     \<and> (count_list (map rawIndex ts) (int k) = 1 \<longrightarrow>
           refCntOf heap'' a = refCntOf heap' a + length rs)
     \<and> length results = length rs
     \<and> (\<forall>m<length rs. \<forall>q<length ts. rawIndex (ts ! q) = int k \<longrightarrow>
          (\<exists>im s. fst (results ! m) ! q = Some im \<and> Some im \<in> set (snd (results ! m))
             \<and> imageMintedBy im = Some (recorderID (rs ! m), s)
             \<and> set (imageContexts im) - {None} = set (planeSlots env (c' ! k))))
     \<and> (\<forall>m<length rs. \<forall>m'<length rs. \<forall>q<length ts.
           rawIndex (ts ! q) = int k \<and> recorderID (rs ! m) \<noteq> recorderID (rs ! m') \<longrightarrow>
           fst (results ! m) ! q \<noteq> fst (results ! m') ! q)"
proof -
  note eff = uploadAllToGPU_effect [OF up nu]
  from eff(2) obtain xs where
    xs: "heap' = heap @ xs" "list_all freshCell xs"
        "concat (map (planeSlots env) c') = map Some [length heap ..< length heap + length xs]"
    by blast
  have dist: "distinct (concat (map (planeSlots env) c'))"
    using xs(3) by (simp add: distinct_map)
  have mem: "Some a \<in> set (concat (map (planeSlots env) c'))"
    using a k by (auto intro!: bexI [of _ "c' ! k"])
  then have arange: "length heap \<le> a" "a < length heap + length xs"
    using xs(3) by auto
  have "freshCell (xs ! (a - length heap))"
    using xs(2) arange by (simp add: list_all_length)
  then have c1: "refCntOf heap' a = 1"
    using xs(1) arange
    by (auto simp: refCntOf_def heapGet_def nth_append freshCell_def split: option.splits)
  have cnt: "count_list (mintedSlots env c' heap' t) (Some a) = (if rawIndex t = int k then 1 else 0)"
    for t
  proof (cases "rawIndex t = int k")
    case True
    then have "mintedSlots env c' heap' t = planeSlots env (c' ! k)"
      using k tv
      by (auto simp: mintedSlots_def getInfo_def count_def textureValid_def split: sum.splits)
    then show ?thesis
      using True distinct_count_list [OF distinct_concat_nth [OF dist k] a] by simp
  next
    case False
    have "Some a \<notin> set (mintedSlots env c' heap' t)"
    proof
      assume m: "Some a \<in> set (mintedSlots env c' heap' t)"
      then have inr: "0 \<le> rawIndex t" "rawIndex t < count c'"
        and ps: "Some a \<in> set (planeSlots env (c' ! nat (rawIndex t)))"
        by (auto simp: mintedSlots_def getInfo_def split: if_splits sum.splits)
      let ?j = "nat (rawIndex t)"
      have j: "?j < length c'" "?j \<noteq> k" using inr False by (auto simp: count_def)
      have "set (planeSlots env (c' ! ?j)) \<inter> set (planeSlots env (c' ! k)) = {}"
      proof (cases "?j < k")
        case True
        then show ?thesis using distinct_concat_disjoint [OF dist True k] by simp
      next
        case False
        then have "k < ?j" using j(2) by simp
        then show ?thesis using distinct_concat_disjoint [OF dist _ j(1)] by blast
      qed
      then show False using ps a by auto
    qed
    then show ?thesis using False by simp
  qed
  have total: "count_list (concat (map (mintedSlots env c' heap') ts)) (Some a)
                = count_list (map rawIndex ts) (int k)"
    using count_concat_once [of ts "mintedSlots env c' heap'" "Some a" rawIndex "int k"] cnt
    by simp
  note reff = reinflateAll_effect [OF run]
  have c2: "refCntOf heap'' a = refCntOf heap' a + length rs * count_list (map rawIndex ts) (int k)"
    using reff total by simp
  have la: "list_all2 (\<lambda>r res. list_all2 (resolvedAs env c' heap' (recorderID r)) ts (fst res)
                        \<and> snd res = filter isPromiseImage (fst res)) rs results"
    using reff by simp
  have c3: "length results = length rs" using la by (simp add: list_all2_lengthD)
  have img: "\<exists>im s. fst (results ! m) ! q = Some im \<and> Some im \<in> set (snd (results ! m))
             \<and> imageMintedBy im = Some (recorderID (rs ! m), s)
             \<and> set (imageContexts im) - {None} = set (planeSlots env (c' ! k))"
    if m: "m < length rs" and q: "q < length ts" and tk: "rawIndex (ts ! q) = int k" for m q
  proof -
    have r: "list_all2 (resolvedAs env c' heap' (recorderID (rs ! m))) ts (fst (results ! m))"
      and f: "snd (results ! m) = filter isPromiseImage (fst (results ! m))"
      using la m by (simp_all add: list_all2_conv_all_nth)
    have lq: "q < length (fst (results ! m))" using r q by (simp add: list_all2_lengthD)
    have "resolvedAs env c' heap' (recorderID (rs ! m)) (ts ! q) (fst (results ! m) ! q)"
      using r q by (simp add: list_all2_conv_all_nth)
    then obtain im s where
      im: "fst (results ! m) ! q = Some im" "isPromiseImage (fst (results ! m) ! q)"
          "imageMintedBy im = Some (recorderID (rs ! m), s)"
          "set (imageContexts im) - {None} = set (planeSlots env (c' ! k))"
      using tk tv by (auto simp: resolvedAs_def)
    have "fst (results ! m) ! q \<in> set (snd (results ! m))"
      using f im(2) lq by simp
    then show ?thesis using im by auto
  qed
  have c4: "\<forall>m<length rs. \<forall>q<length ts. rawIndex (ts ! q) = int k \<longrightarrow>
          (\<exists>im s. fst (results ! m) ! q = Some im \<and> Some im \<in> set (snd (results ! m))
             \<and> imageMintedBy im = Some (recorderID (rs ! m), s)
             \<and> set (imageContexts im) - {None} = set (planeSlots env (c' ! k)))"
    using img by blast
  have c5: "\<forall>m<length rs. \<forall>m'<length rs. \<forall>q<length ts.
           rawIndex (ts ! q) = int k \<and> recorderID (rs ! m) \<noteq> recorderID (rs ! m') \<longrightarrow>
           fst (results ! m) ! q \<noteq> fst (results ! m') ! q"
  proof (intro allI impI)
    fix m m' q
    assume m: "m < length rs" and m': "m' < length rs" and q: "q < length ts"
      and h: "rawIndex (ts ! q) = int k \<and> recorderID (rs ! m) \<noteq> recorderID (rs ! m')"
    from img [OF m q] h obtain im s where
      i1: "fst (results ! m) ! q = Some im" "imageMintedBy im = Some (recorderID (rs ! m), s)"
      by blast
    from img [OF m' q] h obtain im' s' where
      i2: "fst (results ! m') ! q = Some im'" "imageMintedBy im' = Some (recorderID (rs ! m'), s')"
      by blast
    show "fst (results ! m) ! q \<noteq> fst (results ! m') ! q"
      using i1 i2 h by auto
  qed
  have c2': "count_list (map rawIndex ts) (int k) = 1 \<longrightarrow>
           refCntOf heap'' a = refCntOf heap' a + length rs"
    using c2 by simp
  show ?thesis using c1 c2 c2' c3 c4 c5 by blast
qed

theorem shared_contexts_counted_witness:
  "refCntOf (fst (snd sampleUploaded)) 2 = 1
   \<and> refCntOf (snd sampleReinflated) 2 = 1 + 3 * 1
   \<and> length (fst sampleReinflated) = 3
   \<and> (\<exists>im s. fst (fst sampleReinflated ! 0) ! 1 = Some im
          \<and> Some im \<in> set (snd (fst sampleReinflated ! 0))
          \<and> imageMintedBy im = Some (1, s)
          \<and> set (imageContexts im) - {None} = {Some 1, Some 2, Some 3})
   \<and> fst (fst sampleReinflated ! 0) ! 1 \<noteq> fst (fst sampleReinflated ! 1) ! 1"
proof -
  have nu: "notUploaded sampleCatalog" by (simp add: eval_x notUploaded_def)
  have up: "uploadAllToGPU (sampleEnv True) (sampleCatalog, [], sampleGpu smallTexturesOnly)
              = Inr (fst sampleUploaded, fst (snd sampleUploaded), snd (snd sampleUploaded))"
    by (simp add: eval_x)
  have k: "1 < length (fst sampleUploaded)" by (simp add: eval_x)
  have tv: "textureValid (fst (snd sampleUploaded)) (fst sampleUploaded ! 1)"
    by (simp add: eval_x textureValid_def)
  have ps: "planeSlots (sampleEnv True) (fst sampleUploaded ! 1) = [Some 1, Some 2, Some 3]"
    by (simp add: eval_x planeSlots_def)
  have a: "Some 2 \<in> set (planeSlots (sampleEnv True) (fst sampleUploaded ! 1))"
    using ps by simp
  have run: "reinflateAll (sampleEnv True) (fst sampleUploaded) sampleStream sampleRecorders
                 (fst (snd sampleUploaded)) = Inr (fst sampleReinflated, snd sampleReinflated)"
    by (simp add: eval_x)
  note t = shared_contexts_counted [OF nu up k tv a run]
  have ts: "sampleStream ! 1 = \<lparr>rawIndex = 1, rawLength = 4\<rparr>" "length sampleStream = 4"
    "count_list (map rawIndex sampleStream) (int 1) = 1"
    by (simp_all add: eval_x)
  have rs: "length sampleRecorders = 3" "recorderID (sampleRecorders ! 0) = 1"
    "recorderID (sampleRecorders ! 1) = 2"
    by (simp_all add: sampleRecorders_def)
  have c12: "refCntOf (fst (snd sampleUploaded)) 2 = 1
     \<and> refCntOf (snd sampleReinflated) 2 = 1 + 3 * 1 \<and> length (fst sampleReinflated) = 3"
    using t ts rs by simp
  have l0: "0 < length sampleRecorders" "1 < length sampleRecorders" using rs by simp_all
  have l1: "1 < length sampleStream" using ts by simp
  have r1: "rawIndex (sampleStream ! 1) = int 1" using ts by simp
  have q4: "\<forall>m<length sampleRecorders. \<forall>q<length sampleStream.
          rawIndex (sampleStream ! q) = int 1 \<longrightarrow>
          (\<exists>im s. fst (fst sampleReinflated ! m) ! q = Some im
             \<and> Some im \<in> set (snd (fst sampleReinflated ! m))
             \<and> imageMintedBy im = Some (recorderID (sampleRecorders ! m), s)
             \<and> set (imageContexts im) - {None}
                 = set (planeSlots (sampleEnv True) (fst sampleUploaded ! 1)))"
    using t by blast
  have q5: "\<forall>m<length sampleRecorders. \<forall>m'<length sampleRecorders. \<forall>q<length sampleStream.
           rawIndex (sampleStream ! q) = int 1
           \<and> recorderID (sampleRecorders ! m) \<noteq> recorderID (sampleRecorders ! m') \<longrightarrow>
           fst (fst sampleReinflated ! m) ! q \<noteq> fst (fst sampleReinflated ! m') ! q"
    using t by blast
  have c4: "\<exists>im s. fst (fst sampleReinflated ! 0) ! 1 = Some im
          \<and> Some im \<in> set (snd (fst sampleReinflated ! 0))
          \<and> imageMintedBy im = Some (recorderID (sampleRecorders ! 0), s)
          \<and> set (imageContexts im) - {None} = set (planeSlots (sampleEnv True) (fst sampleUploaded ! 1))"
    using q4 [rule_format, OF l0(1) l1 r1] .
  have ne: "recorderID (sampleRecorders ! 0) \<noteq> recorderID (sampleRecorders ! 1)"
    using rs by simp
  have c5: "fst (fst sampleReinflated ! 0) ! 1 \<noteq> fst (fst sampleReinflated ! 1) ! 1"
    using q5 [rule_format, OF l0(1) l0(2) l1] r1 ne by blast
  show ?thesis using c12 c4 c5 ps rs by simp
qed

theorem shared_contexts_counted_counterexample:
  "map rawIndex sampleStream = [0, 1, 2, 0]
   \<and> uploadAllToGPU (sampleEnv True) (sampleCatalog, [], sampleGpu smallTexturesOnly)
       = Inr sampleUploaded
   \<and> textureValid (fst (snd sampleUploaded)) (fst sampleUploaded ! 0)
   \<and> planeSlots (sampleEnv True) (fst sampleUploaded ! 0) = [Some 0]
   \<and> length sampleRecorders = 3
   \<and> reinflateAll (sampleEnv True) (fst sampleUploaded) sampleStream sampleRecorders
         (fst (snd sampleUploaded)) = Inr sampleReinflated
   \<and> refCntOf (fst (snd sampleUploaded)) 0 = 1
   \<and> refCntOf (snd sampleReinflated) 0 = 7"
  by (simp add: eval_x textureValid_def planeSlots_def refCntOf_def)






text \<open>
  C8. The stored index of every entry is its position. This holds of the empty catalogue
  and is kept by \<open>addImage\<close> (whatever it returns), by \<open>findOrDefineImage\<close>, by
  \<open>deflateSKP\<close> and by upload. Where it holds, lookup never stops on one of its
  assertions, and the entry read for a valid index has that index, as the assertion of
  \<open>PromiseImageCreator\<close> expects.
\<close>

theorem index_is_position:
  "indexInvariant []
   \<and> (indexInvariant c \<longrightarrow>
        (addImage env c img = Inr (r, c1) \<longrightarrow> indexInvariant c1)
      \<and> (findOrDefineImage env c img = Inr (i, c2) \<longrightarrow> indexInvariant c2)
      \<and> (deflateSKP env c imgs = Inr (nodes, c3) \<longrightarrow> indexInvariant c3)
      \<and> (uploadAllToGPU env (c, heap, gpu) = Inr (c4, heap', gpu') \<longrightarrow> indexInvariant c4)
      \<and> (\<forall>k<length c. index (c ! k) = int k)
      \<and> (\<exists>found. findImage env c img = Inr found)
      \<and> (isValidID c idx \<longrightarrow> getInfo c idx = Inr (c ! nat idx) \<and> index (c ! nat idx) = idx))"
proof -
  have base: "indexInvariant []" by (simp add: indexInvariant_def)
  have step: "indexInvariant c \<longrightarrow>
        (addImage env c img = Inr (r, c1) \<longrightarrow> indexInvariant c1)
      \<and> (findOrDefineImage env c img = Inr (i, c2) \<longrightarrow> indexInvariant c2)
      \<and> (deflateSKP env c imgs = Inr (nodes, c3) \<longrightarrow> indexInvariant c3)
      \<and> (uploadAllToGPU env (c, heap, gpu) = Inr (c4, heap', gpu') \<longrightarrow> indexInvariant c4)
      \<and> (\<forall>k<length c. index (c ! k) = int k)
      \<and> (\<exists>found. findImage env c img = Inr found)
      \<and> (isValidID c idx \<longrightarrow> getInfo c idx = Inr (c ! nat idx) \<and> index (c ! nat idx) = idx)"
  proof
    assume inv: "indexInvariant c"
    have q1: "addImage env c img = Inr (r, c1) \<longrightarrow> indexInvariant c1"
    proof
      assume "addImage env c img = Inr (r, c1)"
      from addImage_shape [OF this] obtain e where "c1 = c @ [e]" "index e = count c" by blast
      then show "indexInvariant c1" using indexInvariant_snoc [OF inv] by simp
    qed
    have grow: "indexInvariant (c @ ys)"
      if "map index ys = map int [length c ..< length c + length ys]" for ys
    proof -
      have "[0 ..< length c + length ys] = [0 ..< length c] @ [length c ..< length c + length ys]"
        using upt_add_eq_append [of 0 "length c" "length ys"] by simp
      then show ?thesis using inv that by (simp add: indexInvariant_def)
    qed
    have q2: "findOrDefineImage env c img = Inr (i, c2) \<longrightarrow> indexInvariant c2"
    proof
      assume "findOrDefineImage env c img = Inr (i, c2)"
      from findOrDefineImage_grows [OF this] obtain ys where
        "c2 = c @ ys" "map index ys = map int [length c ..< length c + length ys]" by blast
      then show "indexInvariant c2" using grow by simp
    qed
    have q3: "deflateSKP env c imgs = Inr (nodes, c3) \<longrightarrow> indexInvariant c3"
    proof
      assume "deflateSKP env c imgs = Inr (nodes, c3)"
      from deflateSKP_grows [OF this] obtain ys where
        "c3 = c @ ys" "map index ys = map int [length c ..< length c + length ys]" by blast
      then show "indexInvariant c3" using grow by simp
    qed
    have q4: "uploadAllToGPU env (c, heap, gpu) = Inr (c4, heap', gpu') \<longrightarrow> indexInvariant c4"
    proof
      assume u: "uploadAllToGPU env (c, heap, gpu) = Inr (c4, heap', gpu')"
      show "indexInvariant c4"
        using inv uploadAllToGPU_same(1,4) [OF u] by (simp add: indexInvariant_def)
    qed
    have q5: "\<forall>k<length c. index (c ! k) = int k"
      using indexInvariant_nth [OF inv] by simp
    have q6: "\<exists>found. findImage env c img = Inr found"
      using findImage_total [OF inv, of env img 0] by (simp add: findImage_def)
    have q7: "isValidID c idx \<longrightarrow> getInfo c idx = Inr (c ! nat idx) \<and> index (c ! nat idx) = idx"
      using q5 by (auto simp: isValidID_def getInfo_def count_def)
    show "(addImage env c img = Inr (r, c1) \<longrightarrow> indexInvariant c1)
      \<and> (findOrDefineImage env c img = Inr (i, c2) \<longrightarrow> indexInvariant c2)
      \<and> (deflateSKP env c imgs = Inr (nodes, c3) \<longrightarrow> indexInvariant c3)
      \<and> (uploadAllToGPU env (c, heap, gpu) = Inr (c4, heap', gpu') \<longrightarrow> indexInvariant c4)
      \<and> (\<forall>k<length c. index (c ! k) = int k)
      \<and> (\<exists>found. findImage env c img = Inr found)
      \<and> (isValidID c idx \<longrightarrow> getInfo c idx = Inr (c ! nat idx) \<and> index (c ! nat idx) = idx)"
      using q1 q2 q3 q4 q5 q6 q7 by blast
  qed
  show ?thesis using base step by blast
qed

theorem index_is_position_witness:
  "indexInvariant sampleCatalog \<and> indexInvariant (fst sampleUploaded)
   \<and> map index (fst sampleUploaded) = [0, 1, 2]
   \<and> (\<exists>found. findImage (sampleEnv True) sampleCatalog imageBig = Inr found)"
proof -
  have d: "deflateSKP (sampleEnv True) [] samplePicture = Inr (sampleNodes, sampleCatalog)"
    by (simp add: eval_all)
  have u: "uploadAllToGPU (sampleEnv True) (sampleCatalog, [], sampleGpu smallTexturesOnly)
              = Inr (fst sampleUploaded, fst (snd sampleUploaded), snd (snd sampleUploaded))"
    by (simp add: eval_all)
  have i1: "indexInvariant sampleCatalog"
    using index_is_position [where c = "[]" and env = "sampleEnv True" and imgs = samplePicture
            and nodes = sampleNodes and ?c3.0 = sampleCatalog] d
    by simp
  have i2: "indexInvariant (fst sampleUploaded)
            \<and> (\<exists>found. findImage (sampleEnv True) sampleCatalog imageBig = Inr found)"
    using index_is_position [where c = sampleCatalog and env = "sampleEnv True"
            and heap = "[]" and gpu = "sampleGpu smallTexturesOnly"
            and ?c4.0 = "fst sampleUploaded" and heap' = "fst (snd sampleUploaded)"
            and gpu' = "snd (snd sampleUploaded)" and img = imageBig] i1 u
    by simp
  have "map index (fst sampleUploaded) = [0, 1, 2]" by (simp add: eval_all)
  then show ?thesis using i1 i2 by simp
qed

section \<open>Properties of the local-matrix filter factory\<close>

text \<open>
  C9. For every matrix \<open>m\<close> and input \<open>f\<close>: \<open>Make\<close> returns null when \<open>f\<close> is null, and
  when \<open>m\<close> has an affine or a perspective component; for an identity matrix (which has
  neither component) it returns the input itself, with no wrapper around it; in every
  other case it returns a new wrapper node that holds \<open>m\<close> and \<open>f\<close>, which is never the
  input itself.
\<close>

theorem Make_cases:
  "Make m None = None
   \<and> (getType m \<inter> {kAffine_Mask, kPerspective_Mask} \<noteq> {} \<longrightarrow> Make m input = None)
   \<and> (getType m \<inter> {kAffine_Mask, kPerspective_Mask} = {} \<and> isIdentity m \<longrightarrow>
        Make m input = input)
   \<and> (getType m \<inter> {kAffine_Mask, kPerspective_Mask} = {} \<and> \<not> isIdentity m \<longrightarrow>
        Make m (Some f) = Some (SkLocalMatrixImageFilter m f)
        \<and> Make m (Some f) \<noteq> Some f)"
proof -
  have wrapper_new: "SkLocalMatrixImageFilter m f \<noteq> f"
    by (induction f arbitrary: m) auto
  show ?thesis
    using wrapper_new by (auto simp: Make_def split: option.splits)
qed

theorem Make_cases_witness:
  "Make \<lparr>getType = {kScale_Mask, kAffine_Mask}, isIdentity = False\<rparr> (Some (OtherImageFilter 1))
     = None
   \<and> Make \<lparr>getType = {}, isIdentity = True\<rparr> (Some (OtherImageFilter 1))
     = Some (OtherImageFilter 1)
   \<and> Make \<lparr>getType = {kScale_Mask}, isIdentity = False\<rparr> (Some (OtherImageFilter 1))
     = Some (SkLocalMatrixImageFilter \<lparr>getType = {kScale_Mask}, isIdentity = False\<rparr>
               (OtherImageFilter 1))"
  using Make_cases [of "\<lparr>getType = {kScale_Mask, kAffine_Mask}, isIdentity = False\<rparr>"
                       "Some (OtherImageFilter 1)" "OtherImageFilter 1"]
        Make_cases [of "\<lparr>getType = {}, isIdentity = True\<rparr>"
                       "Some (OtherImageFilter 1)" "OtherImageFilter 1"]
        Make_cases [of "\<lparr>getType = {kScale_Mask}, isIdentity = False\<rparr>"
                       "Some (OtherImageFilter 1)" "OtherImageFilter 1"]
  by simp

section \<open>Properties of the GL semaphore\<close>

text \<open>
  C10. The constructor leaves the handle at zero and keeps the ownership it is given. For a
  wrapper constructed with \<open>isOwned\<close> and then given the handle \<open>h\<close>, release deletes
  the sync object exactly when \<open>h\<close> is non-zero and \<open>isOwned\<close> holds: the device then
  receives one \<open>deleteSync\<close> call, for \<open>h\<close>, and otherwise none. Abandon never deletes:
  the device is unchanged. In both cases the stored handle is zero afterwards. The same
  holds of any state of the wrapper, with the fields \<open>fSync\<close> and \<open>fIsOwned\<close> in place
  of \<open>h\<close> and \<open>isOwned\<close>, and neither operation changes the ownership flag.
\<close>

theorem semaphore_ownership_policy:
  "fSync (GrGLSemaphore_new isOwned) = 0
   \<and> fIsOwned (GrGLSemaphore_new isOwned) = isOwned
   \<and> deleteSyncCalls (snd (onRelease ((GrGLSemaphore_new isOwned)\<lparr>fSync := h\<rparr>) gpu)) =
       deleteSyncCalls gpu @ (if h \<noteq> 0 \<and> isOwned then [h] else [])
   \<and> fSync (fst (onRelease ((GrGLSemaphore_new isOwned)\<lparr>fSync := h\<rparr>) gpu)) = 0
   \<and> snd (onAbandon ((GrGLSemaphore_new isOwned)\<lparr>fSync := h\<rparr>) gpu) = gpu
   \<and> fSync (fst (onAbandon ((GrGLSemaphore_new isOwned)\<lparr>fSync := h\<rparr>) gpu)) = 0
   \<and> deleteSyncCalls (snd (onRelease s gpu)) =
       deleteSyncCalls gpu @ (if fSync s \<noteq> 0 \<and> fIsOwned s then [fSync s] else [])
   \<and> fSync (fst (onRelease s gpu)) = 0
   \<and> fIsOwned (fst (onRelease s gpu)) = fIsOwned s
   \<and> snd (onAbandon s gpu) = gpu
   \<and> fSync (fst (onAbandon s gpu)) = 0
   \<and> fIsOwned (fst (onAbandon s gpu)) = fIsOwned s"
  by (simp add: onRelease_def onAbandon_def deleteSync_def GrGLSemaphore_new_def Let_def)

end
